theory Spec2Isabelle
  imports Complex_Main "HOL-Library.Sublist"
begin

section \<open>Python primitives used by \<open>OrderPlugin\<close>\<close>

text \<open>
  The order plugin of \<^verbatim>\<open>pizza_agent_python.py\<close> keeps a dictionary of orders and a
  counter, and renders every answer as a string.  This section models the Python
  primitives it uses: exceptions, \<^verbatim>\<open>str(int)\<close>, \<^verbatim>\<open>str.lower\<close>, \<^verbatim>\<open>str.join\<close> and
  the float arithmetic and formatting behind the order total.
\<close>

datatype error = KeyError | OverflowError

subsection \<open>Integers as decimal strings\<close>

definition digit_char :: "nat \<Rightarrow> char" where
  "digit_char d = ''0123456789'' ! d"

function str_nat :: "nat \<Rightarrow> string" where
  "str_nat n = (if n < 10 then [digit_char n] else str_nat (n div 10) @ [digit_char (n mod 10)])"
  by pat_completeness auto
termination
  by (relation "measure id") auto

declare str_nat.simps [simp del]

text \<open>\<^verbatim>\<open>str(n)\<close> for a Python integer, as an f-string field \<^verbatim>\<open>{n}\<close> renders it.\<close>

definition str_int :: "int \<Rightarrow> string" where
  "str_int i = (if i < 0 then ''-'' @ str_nat (nat (- i)) else str_nat (nat i))"

subsection \<open>Strings\<close>

text \<open>
  A \<^typ>\<open>char\<close> is read as a code point below 256.  On these, \<^verbatim>\<open>str.lower\<close> works
  character by character: it moves the capital letters \<^verbatim>\<open>A\<close> to \<^verbatim>\<open>Z\<close> and the Latin-1
  capitals (192 to 222, without the multiplication sign 215) up by 32 and leaves
  every other character as it is.
\<close>

definition char_lower :: "char \<Rightarrow> char" where
  "char_lower c =
     (let n = (of_char c :: nat)
      in if (65 \<le> n \<and> n \<le> 90) \<or> (192 \<le> n \<and> n \<le> 222 \<and> n \<noteq> 215)
         then char_of (n + 32) else c)"

definition py_lower :: "string \<Rightarrow> string" where
  "py_lower s = map char_lower s"

text \<open>\<^verbatim>\<open>sep.join(xs)\<close>.\<close>

fun join :: "string \<Rightarrow> string list \<Rightarrow> string" where
  "join sep [] = []"
| "join sep [x] = x"
| "join sep (x # y # ys) = x @ sep @ join sep (y # ys)"

subsection \<open>Floats\<close>

text \<open>
  A Python float is an IEEE 754 binary64 value.  The finite ones are rationals
  (\<open>Finite 0\<close> is \<^verbatim>\<open>0.0\<close>); the negative zero, the two infinities and the
  not-a-number have constructors of their own.  Every operation computes the exact
  rational result and rounds it to the nearest binary64 value, ties to the even
  significand, as the hardware does.
\<close>

datatype pyfloat = Finite rat | NegZero | PosInf | NegInf | NaN

text \<open>The number of binary digits of a positive integer (\<^verbatim>\<open>int.bit_length\<close>).\<close>

function bit_length :: "int \<Rightarrow> int" where
  "bit_length n = (if n \<le> 0 then 0 else 1 + bit_length (n div 2))"
  by pat_completeness auto
termination
  by (relation "measure nat") auto

declare bit_length.simps [simp del]

text \<open>For \<open>0 < r\<close>, the exponent \<open>e\<close> with \<open>2\<^sup>e \<le> r < 2\<^sup>e\<^sup>+\<^sup>1\<close>.\<close>

definition floor_log2 :: "rat \<Rightarrow> int" where
  "floor_log2 r =
     (if 1 \<le> r then bit_length \<lfloor>r\<rfloor> - 1
      else - bit_length (\<lceil>1 / r\<rceil> - 1))"

definition round_half_even :: "rat \<Rightarrow> int" where
  "round_half_even x =
     (let f = \<lfloor>x\<rfloor>; d = x - of_int f
      in if d < 1 / 2 then f else if 1 / 2 < d then f + 1
         else if even f then f else f + 1)"

text \<open>
  Rounding a positive rational to 53 significant bits.  The spacing of the binary64
  values around \<open>r\<close> is \<open>2\<^sup>q\<close> with \<open>q = e - 52\<close>, where the exponent \<open>e\<close> of \<open>r\<close> is
  at least \<open>-1022\<close> (below that the values are subnormal and equally spaced); the
  result is the nearest multiple of \<open>2\<^sup>q\<close>.
\<close>

definition round_mag :: "rat \<Rightarrow> rat" where
  "round_mag r =
     (let q = max (floor_log2 r) (- 1022) - 52
      in if 0 \<le> q then of_int (round_half_even (r / 2 ^ nat q)) * 2 ^ nat q
         else of_int (round_half_even (r * 2 ^ nat (- q))) / 2 ^ nat (- q))"

text \<open>
  The result of an arithmetic operation whose exact value is \<open>r\<close>: a magnitude that
  rounds to \<open>2\<^sup>1\<^sup>0\<^sup>2\<^sup>4\<close> overflows to an infinity, one that rounds to zero keeps its
  sign.  An exact zero is \<^verbatim>\<open>0.0\<close>; the operations below treat the sign of an exact
  zero themselves.
\<close>

definition round64 :: "rat \<Rightarrow> pyfloat" where
  "round64 r =
     (if r = 0 then Finite 0
      else let m = round_mag \<bar>r\<bar>
           in if 2 ^ 1024 \<le> m then (if r < 0 then NegInf else PosInf)
              else if m = 0 then (if r < 0 then NegZero else Finite 0)
              else Finite (if r < 0 then - m else m))"

text \<open>A decimal literal of the source, such as \<^verbatim>\<open>10.99\<close>, is the nearest float.\<close>

definition float_literal :: "rat \<Rightarrow> pyfloat" where
  "float_literal r = round64 r"

text \<open>
  \<^verbatim>\<open>float(n)\<close> for a Python integer, the conversion that \<^verbatim>\<open>price * quantity\<close> applies
  to its integer operand: correctly rounded, and an \<^verbatim>\<open>OverflowError\<close> (int too large
  to convert to float) when the integer rounds beyond the largest float.
\<close>

definition float_of_int :: "int \<Rightarrow> error + pyfloat" where
  "float_of_int n =
     (if n = 0 then Inr (Finite 0)
      else let m = round_mag \<bar>of_int n\<bar>
           in if 2 ^ 1024 \<le> m then Inl OverflowError
              else Inr (Finite (if n < 0 then - m else m)))"

text \<open>
  The midpoint between the largest float, \<open>2\<^sup>1\<^sup>0\<^sup>2\<^sup>4 - 2\<^sup>9\<^sup>7\<^sup>1\<close>, and \<open>2\<^sup>1\<^sup>0\<^sup>2\<^sup>4\<close>: the least magnitude
  that rounds beyond the largest float.
\<close>

definition float_int_limit :: int where
  "float_int_limit = 2 ^ 1024 - 2 ^ 970"

definition is_negative :: "pyfloat \<Rightarrow> bool" where
  "is_negative x = (case x of Finite r \<Rightarrow> r < 0 | NegZero \<Rightarrow> True | NegInf \<Rightarrow> True | _ \<Rightarrow> False)"

definition is_zero :: "pyfloat \<Rightarrow> bool" where
  "is_zero x = (x = Finite 0 \<or> x = NegZero)"

definition is_inf :: "pyfloat \<Rightarrow> bool" where
  "is_inf x = (x = PosInf \<or> x = NegInf)"

definition rat_of_finite :: "pyfloat \<Rightarrow> rat" where
  "rat_of_finite x = (case x of Finite r \<Rightarrow> r | _ \<Rightarrow> 0)"

text \<open>\<^verbatim>\<open>x + y\<close> on floats.  It never raises.\<close>

definition fadd :: "pyfloat \<Rightarrow> pyfloat \<Rightarrow> pyfloat" where
  "fadd x y =
     (if x = NaN \<or> y = NaN then NaN
      else if is_inf x then (if is_inf y \<and> y \<noteq> x then NaN else x)
      else if is_inf y then y
      else if x = NegZero then y
      else if y = NegZero then x
      else round64 (rat_of_finite x + rat_of_finite y))"

text \<open>\<^verbatim>\<open>x * y\<close> on floats.  It never raises: a product too large is an infinity.\<close>

definition fmul :: "pyfloat \<Rightarrow> pyfloat \<Rightarrow> pyfloat" where
  "fmul x y =
     (let neg = (is_negative x \<noteq> is_negative y)
      in if x = NaN \<or> y = NaN then NaN
         else if is_inf x \<or> is_inf y
           then (if is_zero x \<or> is_zero y then NaN else if neg then NegInf else PosInf)
         else if is_zero x \<or> is_zero y then (if neg then NegZero else Finite 0)
         else round64 (rat_of_finite x * rat_of_finite y))"

text \<open>\<^verbatim>\<open>price * quantity\<close> with a float on the left and an integer on the right.\<close>

definition fmul_int :: "pyfloat \<Rightarrow> int \<Rightarrow> error + pyfloat" where
  "fmul_int x n = (case float_of_int n of Inl e \<Rightarrow> Inl e | Inr y \<Rightarrow> Inr (fmul x y))"

text \<open>
  A non-negative rational in fixed notation with \<open>k\<close> digits after the point,
  correctly rounded (ties to even), as \<^verbatim>\<open>format\<close> and \<^verbatim>\<open>repr\<close> print digits.
\<close>

definition fixed_digits :: "rat \<Rightarrow> nat \<Rightarrow> string" where
  "fixed_digits r k =
     (let n = nat (round_half_even (r * 10 ^ k)); frac = str_nat (n mod 10 ^ k)
      in str_nat (n div 10 ^ k) @ ''.'' @ replicate (k - length frac) CHR ''0'' @ frac)"

text \<open>The format specification \<^verbatim>\<open>:.2f\<close>.\<close>

definition format_2f :: "pyfloat \<Rightarrow> string" where
  "format_2f x =
     (case x of
        NaN \<Rightarrow> ''nan''
      | PosInf \<Rightarrow> ''inf''
      | NegInf \<Rightarrow> ''-inf''
      | NegZero \<Rightarrow> ''-0.00''
      | Finite r \<Rightarrow> (if r < 0 then ''-'' else []) @ fixed_digits \<bar>r\<bar> 2)"

text \<open>
  \<^verbatim>\<open>repr\<close> of a float, which an f-string field without format specification prints:
  the decimal with the fewest digits that reads back as the same float, with at
  least one digit after the point.  The plugin prints only the prices of its table
  this way; they lie in the range where \<^verbatim>\<open>repr\<close> uses fixed notation, which is the
  notation modelled here.
\<close>

definition reads_back :: "rat \<Rightarrow> nat \<Rightarrow> bool" where
  "reads_back r k = (round64 (of_int (round_half_even (r * 10 ^ k)) / 10 ^ k) = Finite r)"

definition float_repr :: "pyfloat \<Rightarrow> string" where
  "float_repr x =
     (case x of
        NaN \<Rightarrow> ''nan''
      | PosInf \<Rightarrow> ''inf''
      | NegInf \<Rightarrow> ''-inf''
      | NegZero \<Rightarrow> ''-0.0''
      | Finite r \<Rightarrow>
          (if r < 0 then ''-'' else []) @
          fixed_digits \<bar>r\<bar> (case find (reads_back \<bar>r\<bar>) [1 ..< 17] of Some k \<Rightarrow> k | None \<Rightarrow> 17))"

section \<open>The order plugin\<close>

subsection \<open>Data model\<close>

text \<open>
  An entry of \<^verbatim>\<open>current_orders\<close> is a dictionary with the three keys
  \<^verbatim>\<open>customer_name\<close>, \<^verbatim>\<open>items\<close> and \<^verbatim>\<open>total\<close>, written at once by \<^verbatim>\<open>create_order\<close>.
  The plugin object holds the dictionary of orders, keyed by order id, and the
  counter, which starts at zero and is only ever incremented.
\<close>

record order =
  customer_name :: string
  items :: "string list"
  total :: pyfloat

record order_plugin =
  current_orders :: "string \<rightharpoonup> order"
  order_counter :: nat

text \<open>\<^verbatim>\<open>OrderPlugin.__init__\<close>.\<close>

definition init :: order_plugin where
  "init = \<lparr>current_orders = Map.empty, order_counter = 0\<rparr>"

text \<open>The price table local to \<^verbatim>\<open>add_item_to_order\<close>.\<close>

definition price_table :: "(string \<times> pyfloat) list" where
  "price_table =
     [(''margherita'', float_literal (1099 / 100)),
      (''pepperoni'', float_literal (1299 / 100)),
      (''vegetarian'', float_literal (1199 / 100)),
      (''hawaiian'', float_literal (1399 / 100)),
      (''supreme'', float_literal (1499 / 100)),
      (''garlic bread'', float_literal (499 / 100)),
      (''caesar salad'', float_literal (599 / 100)),
      (''chicken wings'', float_literal (899 / 100)),
      (''soda'', float_literal (199 / 100)),
      (''water'', float_literal (149 / 100)),
      (''beer'', float_literal (599 / 100))]"

definition price_lookup :: "string \<rightharpoonup> pyfloat" where
  "price_lookup = map_of price_table"

definition newline :: string where
  "newline = [CHR 0x0A]"

definition quote :: string where
  "quote = [CHR 0x27]"

subsection \<open>Operations\<close>

text \<open>
  Every operation takes the plugin object and returns the string it answers with
  together with the object as it leaves it; an exception is a value \<open>Inl\<close>.  A
  subscript \<^verbatim>\<open>d[k]\<close> that reads a dictionary raises \<^verbatim>\<open>KeyError\<close> on a missing key.
\<close>

definition create_order :: "order_plugin \<Rightarrow> string \<Rightarrow> string \<times> order_plugin" where
  "create_order self name =
     (let counter = order_counter self + 1;
          order_id = ''ORD-'' @ str_nat counter;
          orders = (current_orders self)
            (order_id \<mapsto> \<lparr>customer_name = name, items = [], total = Finite 0\<rparr>)
      in (''Order created for '' @ name @ '' with order ID: '' @ order_id @
            ''. You can now add items to this order.'',
          \<lparr>current_orders = orders, order_counter = counter\<rparr>))"

text \<open>
  The loop \<^verbatim>\<open>for _ in range(quantity): items.append(item_name)\<close>; the range of a
  quantity that is zero or negative is empty, so the loop runs \<open>nat quantity\<close> times.
\<close>

fun append_times :: "nat \<Rightarrow> 'a \<Rightarrow> 'a list \<Rightarrow> 'a list" where
  "append_times 0 x xs = xs"
| "append_times (Suc n) x xs = append_times n x (xs @ [x])"

definition add_item_to_order ::
  "order_plugin \<Rightarrow> string \<Rightarrow> string \<Rightarrow> int \<Rightarrow> error + string \<times> order_plugin" where
  "add_item_to_order self order_id item_name quantity =
     (if current_orders self order_id = None
      then Inr (''Order ID '' @ order_id @ '' not found. Please create an order first.'', self)
      else
        let item_name_lower = py_lower item_name
        in if price_lookup item_name_lower = None
           then Inr (''Item '' @ quote @ item_name @ quote @
                       '' not found in our menu. Please check the menu for available items.'',
                     self)
           else
             (case price_lookup item_name_lower of
                None \<Rightarrow> Inl KeyError
              | Some item_price \<Rightarrow>
                 (case fmul_int item_price quantity of
                    Inl e \<Rightarrow> Inl e
                  | Inr total_item_price \<Rightarrow>
                     (case current_orders self order_id of
                        None \<Rightarrow> Inl KeyError
                      | Some ord \<Rightarrow>
                          let ord' = ord\<lparr>items := append_times (nat quantity) item_name (items ord),
                                         total := fadd (total ord) total_item_price\<rparr>
                          in Inr (''Added '' @ str_int quantity @ ''x '' @ item_name @
                                    '' ($'' @ float_repr item_price @ '' each) to order '' @
                                    order_id @ ''. Current order total: $'' @
                                    format_2f (total ord'),
                                  self\<lparr>current_orders :=
                                         (current_orders self)(order_id \<mapsto> ord')\<rparr>)))))"

text \<open>
  The dictionary \<^verbatim>\<open>items_summary\<close> of \<^verbatim>\<open>get_order_status\<close> keeps its keys in the order
  of their first insertion, so it is an association list: a name already present
  has its count incremented in place, a new name goes to the end with count one.
\<close>

fun count_item :: "(string \<times> nat) list \<Rightarrow> string \<Rightarrow> (string \<times> nat) list" where
  "count_item [] item = [(item, 1)]"
| "count_item ((k, n) # summary) item =
     (if k = item then (k, n + 1) # summary else (k, n) # count_item summary item)"

fun summarise :: "(string \<times> nat) list \<Rightarrow> string list \<Rightarrow> (string \<times> nat) list" where
  "summarise summary [] = summary"
| "summarise summary (item # rest) = summarise (count_item summary item) rest"

definition items_list :: "string list \<Rightarrow> string list" where
  "items_list its =
     map (\<lambda>(item, quantity). str_nat quantity @ ''x '' @ item) (summarise [] its)"

definition get_order_status ::
  "order_plugin \<Rightarrow> string \<Rightarrow> error + string \<times> order_plugin" where
  "get_order_status self order_id =
     (if current_orders self order_id = None
      then Inr (''Order ID '' @ order_id @ '' not found. Please check your order ID.'', self)
      else
        (case current_orders self order_id of
           None \<Rightarrow> Inl KeyError
         | Some ord \<Rightarrow>
             Inr (newline @ ''        Order ID: '' @ order_id @
                  newline @ ''        Customer: '' @ customer_name ord @
                  newline @ ''        Items: '' @ join '', '' (items_list (items ord)) @
                  newline @ ''        Total: $'' @ format_2f (total ord) @
                  newline @ ''        '',
                  self)))"

definition complete_order ::
  "order_plugin \<Rightarrow> string \<Rightarrow> error + string \<times> order_plugin" where
  "complete_order self order_id =
     (if current_orders self order_id = None
      then Inr (''Order ID '' @ order_id @ '' not found. Please check your order ID.'', self)
      else
        (case current_orders self order_id of
           None \<Rightarrow> Inl KeyError
         | Some ord \<Rightarrow>
             Inr (newline @ ''        Thank you, '' @ customer_name ord @ ''!'' @
                  newline @ ''        '' @
                  newline @ ''        Your order (ID: '' @ order_id @
                    '') has been confirmed and is being prepared.'' @
                  newline @ ''        Total: $'' @ format_2f (total ord) @
                  newline @ ''        '' @
                  newline @
                    ''        Your delicious pizza will be ready in approximately 25-30 minutes.'' @
                  newline @ ''        '',
                  self)))"

subsection \<open>Sequences of calls\<close>

text \<open>
  A caller holds one plugin object and calls its four operations in any order with
  any arguments.  An operation that raises has not changed the object (the only
  raising step of \<^verbatim>\<open>add_item_to_order\<close> comes before its first assignment), so the
  object after a call that raised is the object before it.
\<close>

datatype call =
    CreateOrder string
  | AddItem string string int
  | GetOrderStatus string
  | CompleteOrder string

fun step :: "order_plugin \<Rightarrow> call \<Rightarrow> error + string \<times> order_plugin" where
  "step self (CreateOrder name) = Inr (create_order self name)"
| "step self (AddItem order_id item_name quantity) =
     add_item_to_order self order_id item_name quantity"
| "step self (GetOrderStatus order_id) = get_order_status self order_id"
| "step self (CompleteOrder order_id) = complete_order self order_id"

definition exec :: "order_plugin \<Rightarrow> call \<Rightarrow> order_plugin" where
  "exec self c = (case step self c of Inl e \<Rightarrow> self | Inr (msg, self') \<Rightarrow> self')"

fun run :: "order_plugin \<Rightarrow> call list \<Rightarrow> order_plugin" where
  "run self [] = self"
| "run self (c # cs) = run (exec self c) cs"

text \<open>
  The value of the local variable \<^verbatim>\<open>order_id\<close> in a call of \<^verbatim>\<open>create_order\<close> on the
  given object, and the ids that the \<^verbatim>\<open>create_order\<close> calls of a sequence assign, in
  the order of the calls.
\<close>

definition new_order_id :: "order_plugin \<Rightarrow> string" where
  "new_order_id self = ''ORD-'' @ str_nat (order_counter self + 1)"

fun is_create :: "call \<Rightarrow> bool" where
  "is_create (CreateOrder name) = True"
| "is_create c = False"

fun created_ids :: "order_plugin \<Rightarrow> call list \<Rightarrow> string list" where
  "created_ids self [] = []"
| "created_ids self (c # cs) =
     (if is_create c then [new_order_id self] else []) @ created_ids (exec self c) cs"

text \<open>
  The amount \<^verbatim>\<open>total_item_price\<close> that \<^verbatim>\<open>add_item_to_order\<close> computes for an item
  name and a quantity, when the lowercased name is in the price table and the
  product does not raise.
\<close>

definition item_charge :: "string \<Rightarrow> int \<Rightarrow> pyfloat option" where
  "item_charge item_name quantity =
     (case price_lookup (py_lower item_name) of
        None \<Rightarrow> None
      | Some item_price \<Rightarrow>
          (case fmul_int item_price quantity of
             Inl e \<Rightarrow> None
           | Inr total_item_price \<Rightarrow> Some total_item_price))"

text \<open>
  Two ways in which the total of an order can agree with its item list.  In the
  first, the list is the concatenation of runs, one run of \<open>quantity\<close> copies of a
  name for each of a series of additions, and the total is the float sum, from
  \<^verbatim>\<open>0.0\<close> and in the order of the additions, of the amounts charged for them.  In
  the second, every entry of the list has a price in the table and the total is the
  float sum, from \<^verbatim>\<open>0.0\<close> and in list order, of these unit prices.
\<close>

definition accumulated :: "order \<Rightarrow> bool" where
  "accumulated ord \<longleftrightarrow>
     (\<exists>adds.
        (\<forall>(n, q, t) \<in> set adds. 0 \<le> q \<and> item_charge n q = Some t)
      \<and> items ord = concat (map (\<lambda>(n, q, t). replicate (nat q) n) adds)
      \<and> total ord = foldl fadd (Finite 0) (map (\<lambda>(n, q, t). t) adds))"

definition unit_sum :: "order \<Rightarrow> bool" where
  "unit_sum ord \<longleftrightarrow>
     (\<exists>ps. map (\<lambda>n. price_lookup (py_lower n)) (items ord) = map Some ps
         \<and> total ord = foldl fadd (Finite 0) ps)"

section \<open>Evaluating the model\<close>

lemma floor_rat_numeral: "\<lfloor>numeral a / numeral b :: rat\<rfloor> = numeral a div numeral b"
  by (metis floor_divide_of_int_eq of_int_numeral)

lemma ceiling_rat_numeral:
  "\<lceil>numeral a / numeral b :: rat\<rceil> = - (- numeral a div numeral b)"
  by (metis ceiling_def floor_divide_of_int_eq minus_divide_left of_int_minus of_int_numeral)

lemmas float_eval =
  round64_def round_mag_def floor_log2_def round_half_even_def bit_length.simps
  Let_def float_literal_def floor_rat_numeral ceiling_rat_numeral

lemmas text_eval = fixed_digits_def str_nat.simps digit_char_def

lemma str_nat_1: "str_nat (Suc 0) = ''1''"
  by (simp add: text_eval)

lemma format_2f_zero: "format_2f (Finite 0) = ''0.00''"
  by (simp add: format_2f_def round_half_even_def text_eval)

text \<open>The first order of a new plugin object.\<close>

lemma first_order:
  "create_order init name =
     (''Order created for '' @ name @
        '' with order ID: ORD-1. You can now add items to this order.'',
      \<lparr>current_orders = [''ORD-1'' \<mapsto> \<lparr>customer_name = name, items = [], total = Finite 0\<rparr>],
       order_counter = 1\<rparr>)"
  by (simp add: create_order_def init_def str_nat_1)

section \<open>Conversion of integers to floats\<close>

text \<open>
  \<^verbatim>\<open>float(n)\<close> overflows exactly when the magnitude of \<open>n\<close> reaches
  \<open>float_int_limit\<close>.
\<close>

lemma bit_length_bounds:
  "0 < n \<Longrightarrow> 0 < bit_length n \<and> 2 ^ nat (bit_length n - 1) \<le> n \<and> n < 2 ^ nat (bit_length n)"
proof (induction n rule: bit_length.induct)
  case (1 n)
  show ?case
  proof (cases "n = 1")
    case True
    then show ?thesis by (simp add: bit_length.simps)
  next
    case False
    with "1.prems" have h: "0 < n div 2" by simp
    from "1.prems" have "\<not> n \<le> 0" by simp
    from "1.IH" [OF this h]
    have ih: "0 < bit_length (n div 2)" "2 ^ nat (bit_length (n div 2) - 1) \<le> n div 2"
      "n div 2 < 2 ^ nat (bit_length (n div 2))" by simp_all
    have b: "bit_length n = 1 + bit_length (n div 2)"
      using "1.prems" by (subst bit_length.simps) simp
    have e1: "nat (bit_length n - 1) = Suc (nat (bit_length (n div 2) - 1))"
      using b ih(1) by simp
    have e2: "nat (bit_length n) = Suc (nat (bit_length (n div 2)))"
      using b ih(1) by simp
    have "2 * 2 ^ nat (bit_length (n div 2) - 1) \<le> n" using ih(2) by linarith
    moreover have "n < 2 * 2 ^ nat (bit_length (n div 2))" using ih(3) by linarith
    moreover have "0 < bit_length n" using b ih(1) by simp
    ultimately show ?thesis unfolding e1 e2 by simp
  qed
qed

lemma round_half_even_of_int: "round_half_even (of_int k) = k"
  by (simp add: round_half_even_def)

lemma round_half_even_lower: "k \<le> \<lfloor>x\<rfloor> \<Longrightarrow> k \<le> round_half_even x"
  by (auto simp: round_half_even_def Let_def)

lemma round_half_even_upper: "x \<le> of_int k \<Longrightarrow> round_half_even x \<le> k"
proof -
  assume a: "x \<le> of_int k"
  show ?thesis
  proof (cases "x = of_int k")
    case True
    then show ?thesis by (simp add: round_half_even_of_int)
  next
    case False
    with a have "x < of_int k" by simp
    then have "\<lfloor>x\<rfloor> < k" by (simp add: floor_less_iff)
    then show ?thesis by (auto simp: round_half_even_def Let_def)
  qed
qed

lemma round_half_even_ge_even:
  assumes "even k"
  shows "k \<le> round_half_even x \<longleftrightarrow> of_int k - 1 / 2 \<le> x"
proof
  assume l: "k \<le> round_half_even x"
  show "of_int k - 1 / 2 \<le> x"
  proof (rule ccontr)
    assume "\<not> of_int k - 1 / 2 \<le> x"
    then have lt: "x < of_int k - 1 / 2" by simp
    then have "x < of_int k" by linarith
    then have f: "\<lfloor>x\<rfloor> < k" by (simp add: floor_less_iff)
    have "round_half_even x < k"
    proof (cases "\<lfloor>x\<rfloor> = k - 1")
      case True
      then have "x - of_int \<lfloor>x\<rfloor> < 1 / 2" using lt by simp
      then show ?thesis using True by (simp add: round_half_even_def Let_def)
    next
      case False
      with f have "\<lfloor>x\<rfloor> + 1 < k" by simp
      then show ?thesis by (auto simp: round_half_even_def Let_def)
    qed
    with l show False by simp
  qed
next
  assume g: "of_int k - 1 / 2 \<le> x"
  have "of_int (k - 1) \<le> x" using g by simp
  then have f: "k - 1 \<le> \<lfloor>x\<rfloor>" by (simp only: le_floor_iff)
  show "k \<le> round_half_even x"
  proof (cases "\<lfloor>x\<rfloor> = k - 1")
    case True
    then have d: "1 / 2 \<le> x - of_int \<lfloor>x\<rfloor>" using g by simp
    have "odd \<lfloor>x\<rfloor>" using True assms by simp
    then show ?thesis using d True by (auto simp: round_half_even_def Let_def)
  next
    case False
    with f have "k \<le> \<lfloor>x\<rfloor>" by simp
    then show ?thesis by (rule round_half_even_lower)
  qed
qed


lemma round_mag_of_int_overflow:
  assumes "0 < a"
  shows "2 ^ 1024 \<le> round_mag (of_int a) \<longleftrightarrow> 2 ^ 1024 - 2 ^ 970 \<le> a"
proof -
  define e where "e = bit_length a - 1"
  from bit_length_bounds [OF assms]
  have e0: "0 \<le> e" and lo: "2 ^ nat e \<le> a" and hi: "a < 2 ^ Suc (nat e)"
    by (simp_all add: e_def Suc_nat_eq_nat_zadd1)
  have fl: "floor_log2 (of_int a) = e"
    using assms by (simp add: floor_log2_def e_def)
  show ?thesis
  proof (cases "e < 52")
    case True
    define k where "k = nat (52 - e)"
    have "round_mag (of_int a) = of_int (round_half_even (of_int (a * 2 ^ k))) / 2 ^ k"
      using True e0 by (simp add: round_mag_def fl Let_def k_def)
    then have rm: "round_mag (of_int a) = of_int a"
      by (simp only: round_half_even_of_int) simp
    have "(2::int) ^ Suc (nat e) \<le> 2 ^ 52"
      using True e0 by (intro power_increasing) auto
    with hi have a52: "a < 2 ^ 52" by linarith
    then have "\<not> 2 ^ 1024 - 2 ^ 970 \<le> a" by simp
    moreover have "\<not> (2::rat) ^ 1024 \<le> of_int a"
    proof
      assume "(2::rat) ^ 1024 \<le> of_int a"
      then have "(of_int (2 ^ 1024) :: rat) \<le> of_int a" by simp
      then have "(2::int) ^ 1024 \<le> a" by (simp only: of_int_le_iff)
      with a52 show False by simp
    qed
    ultimately show ?thesis by (simp add: rm)
  next
    case False
    define k where "k = nat (e - 52)"
    have ne: "nat e = 52 + k" using False by (simp add: k_def)
    define x :: rat where "x = of_int a / 2 ^ k"
    define M where "M = round_half_even x"
    have rm: "round_mag (of_int a) = of_int M * 2 ^ k"
      using False by (simp add: round_mag_def fl Let_def k_def M_def x_def)
    have ax: "of_int a = x * 2 ^ k" by (simp add: x_def)
    have "(of_int (2 ^ nat e) :: rat) \<le> of_int a" using lo by (simp only: of_int_le_iff)
    then have "(2::rat) ^ 52 * 2 ^ k \<le> x * 2 ^ k" by (simp add: ne power_add ax)
    then have xlo: "2 ^ 52 \<le> x" by simp
    have "(of_int a :: rat) < of_int (2 ^ Suc (nat e))" using hi by (simp only: of_int_less_iff)
    then have "x * 2 ^ k < (2::rat) ^ 53 * 2 ^ k" by (simp add: ne power_add ax)
    then have xhi: "x < 2 ^ 53" by simp
    have "of_int (2 ^ 52) \<le> x" using xlo by simp
    then have "2 ^ 52 \<le> \<lfloor>x\<rfloor>" by (simp only: le_floor_iff)
    then have Mlo: "2 ^ 52 \<le> M" unfolding M_def by (rule round_half_even_lower)
    have "x \<le> of_int (2 ^ 53)" using xhi by simp
    then have Mhi: "M \<le> 2 ^ 53" unfolding M_def by (rule round_half_even_upper)
    consider (small) "k < 971" | (mid) "k = 971" | (big) "971 < k" by linarith
    then show ?thesis
    proof cases
      case small
      then have kk: "(2::int) ^ k \<le> 2 ^ 970" by (intro power_increasing) auto
      have "M * 2 ^ k \<le> 2 ^ 53 * 2 ^ 970"
        using Mhi kk by (intro mult_mono) auto
      then have "M * 2 ^ k < 2 ^ 1024" by simp
      then have "(of_int (M * 2 ^ k) :: rat) < of_int (2 ^ 1024)" by (simp only: of_int_less_iff)
      then have l: "\<not> 2 ^ 1024 \<le> round_mag (of_int a)" by (simp add: rm)
      have "(2::int) ^ Suc (nat e) \<le> 2 ^ 1023"
        using small ne by (intro power_increasing) auto
      with hi have "a < 2 ^ 1023" by linarith
      then have "\<not> 2 ^ 1024 - 2 ^ 970 \<le> a" by simp
      with l show ?thesis by simp
    next
      case big
      then have kk: "(2::int) ^ 972 \<le> 2 ^ k" by (intro power_increasing) auto
      have "2 ^ 52 * 2 ^ 972 \<le> M * 2 ^ k"
        using Mlo kk by (intro mult_mono) auto
      then have "2 ^ 1024 \<le> M * 2 ^ k" by simp
      then have "(of_int (2 ^ 1024) :: rat) \<le> of_int (M * 2 ^ k)" by (simp only: of_int_le_iff)
      then have l: "2 ^ 1024 \<le> round_mag (of_int a)" by (simp add: rm)
      have "(2::int) ^ 1024 \<le> 2 ^ nat e"
        using big ne by (intro power_increasing) auto
      with lo have "2 ^ 1024 \<le> a" by linarith
      then have "2 ^ 1024 - 2 ^ 970 \<le> a" by simp
      with l show ?thesis by simp
    next
      case mid
      have "2 ^ 1024 \<le> round_mag (of_int a) \<longleftrightarrow> (of_int (2 ^ 53 * 2 ^ 971) :: rat) \<le> of_int (M * 2 ^ 971)"
        by (simp add: rm mid)
      also have "\<dots> \<longleftrightarrow> 2 ^ 53 * 2 ^ 971 \<le> M * 2 ^ 971" by (simp only: of_int_le_iff)
      also have "\<dots> \<longleftrightarrow> 2 ^ 53 \<le> M" by simp
      also have "\<dots> \<longleftrightarrow> of_int (2 ^ 53) - 1 / 2 \<le> x"
        unfolding M_def by (rule round_half_even_ge_even) simp
      also have "\<dots> \<longleftrightarrow> (of_int (2 ^ 53) - 1 / 2) * 2 ^ 971 \<le> x * 2 ^ 971"
        by (rule mult_le_cancel_right_pos [symmetric]) simp
      also have "\<dots> \<longleftrightarrow> (of_int (2 ^ 1024 - 2 ^ 970) :: rat) \<le> of_int a"
        by (simp add: ax mid)
      also have "\<dots> \<longleftrightarrow> 2 ^ 1024 - 2 ^ 970 \<le> a" by (simp only: of_int_le_iff)
      finally show ?thesis .
    qed
  qed
qed

lemma float_of_int_overflow_iff:
  "float_of_int n = Inl OverflowError \<longleftrightarrow> float_int_limit \<le> \<bar>n\<bar>"
proof (cases "n = 0")
  case True
  then show ?thesis by (simp add: float_of_int_def float_int_limit_def)
next
  case False
  then have "0 < \<bar>n\<bar>" by simp
  from round_mag_of_int_overflow [OF this] False show ?thesis
    unfolding float_int_limit_def by (simp add: float_of_int_def Let_def)
qed

lemma float_of_int_cases:
  "float_of_int n = Inl OverflowError \<or> (\<exists>r. float_of_int n = Inr (Finite r))"
  by (simp add: float_of_int_def Let_def)

lemma dom_price_lookup:
  "dom price_lookup =
     {''margherita'', ''pepperoni'', ''vegetarian'', ''hawaiian'', ''supreme'', ''garlic bread'',
      ''caesar salad'', ''chicken wings'', ''soda'', ''water'', ''beer''}"
  by (simp add: price_lookup_def price_table_def dom_map_of_conv_image_fst)

lemma card_dom_price_lookup: "card (dom price_lookup) = 11"
  by (simp add: dom_price_lookup)

lemma fmul_int_overflow_iff:
  "fmul_int x n = Inl e \<longleftrightarrow> e = OverflowError \<and> float_int_limit \<le> \<bar>n\<bar>"
  using float_of_int_cases [of n] float_of_int_overflow_iff [of n]
  by (auto simp: fmul_int_def)

lemma fmul_int_result:
  "\<bar>n\<bar> < float_int_limit \<Longrightarrow> \<exists>r. float_of_int n = Inr (Finite r) \<and> fmul_int x n = Inr (fmul x (Finite r))"
  using float_of_int_cases [of n] float_of_int_overflow_iff [of n]
  by (auto simp: fmul_int_def)

lemma fmul_int_returns:
  "fmul_int x n = Inr y \<Longrightarrow> \<bar>n\<bar> < float_int_limit"
  using fmul_int_overflow_iff [of x n OverflowError]
  by (cases "float_int_limit \<le> \<bar>n\<bar>") auto

lemma add_item_to_order_raises_iff:
  "add_item_to_order self order_id item_name quantity = Inl e \<longleftrightarrow>
     e = OverflowError \<and> current_orders self order_id \<noteq> None
     \<and> price_lookup (py_lower item_name) \<noteq> None \<and> float_int_limit \<le> \<bar>quantity\<bar>"
  by (auto simp: add_item_to_order_def Let_def fmul_int_overflow_iff
           split: option.splits sum.splits dest: fmul_int_returns)

lemma append_times_replicate: "append_times n x xs = xs @ replicate n x"
  by (induction n arbitrary: xs) (simp_all add: replicate_app_Cons_same)

lemma float_of_int_exact:
  assumes "\<bar>n\<bar> < 2 ^ 53"
  shows "float_of_int n = Inr (Finite (of_int n))"
proof (cases "n = 0")
  case True
  then show ?thesis by (simp add: float_of_int_def)
next
  case False
  define a where "a = \<bar>n\<bar>"
  have a0: "0 < a" using False by (simp add: a_def)
  define e where "e = bit_length a - 1"
  from bit_length_bounds [OF a0]
  have e0: "0 \<le> e" and lo: "2 ^ nat e \<le> a"
    by (simp_all add: e_def)
  have fl: "floor_log2 (of_int a) = e"
    using a0 by (simp add: floor_log2_def e_def)
  have lt: "(2::int) ^ nat e < 2 ^ 53" using lo assms by (simp add: a_def)
  have "nat e < 53"
  proof (rule ccontr)
    assume "\<not> nat e < 53"
    then have "53 \<le> nat e" by simp
    then have "(2::int) ^ 53 \<le> 2 ^ nat e" by (intro power_increasing) auto
    with lt show False by linarith
  qed
  then have e52: "e \<le> 52" by simp
  define k where "k = nat (52 - e)"
  have rm: "round_mag (of_int a) = of_int a"
  proof (cases "e = 52")
    case True
    then show ?thesis by (simp add: round_mag_def fl Let_def round_half_even_of_int)
  next
    case False
    with e52 have "e < 52" by simp
    with e0 have "round_mag (of_int a) = of_int (round_half_even (of_int (a * 2 ^ k))) / 2 ^ k"
      by (simp add: round_mag_def fl Let_def k_def)
    then show ?thesis by (simp only: round_half_even_of_int) simp
  qed
  have no: "\<not> (2::rat) ^ 1024 \<le> of_int a"
  proof
    assume "(2::rat) ^ 1024 \<le> of_int a"
    then have "(of_int (2 ^ 1024) :: rat) \<le> of_int a" by simp
    then have "(2::int) ^ 1024 \<le> a" by (simp only: of_int_le_iff)
    with assms show False by (simp add: a_def)
  qed
  have ab: "\<bar>rat_of_int n\<bar> = of_int a" by (simp add: a_def)
  have sg: "(if n < 0 then - rat_of_int a else of_int a) = of_int n"
    by (simp add: a_def)
  have "float_of_int n = Inr (Finite (if n < 0 then - rat_of_int a else of_int a))"
    unfolding float_of_int_def Let_def ab rm using False no by (simp only: if_False)
  then show ?thesis by (simp only: sg)
qed


lemmas fop_eval = fadd_def fmul_def is_negative_def is_inf_def is_zero_def rat_of_finite_def

section \<open>Order ids and the keys of the store\<close>

lemma digit_char_inj:
  assumes "a < 10" "b < 10" "digit_char a = digit_char b"
  shows "a = b"
proof -
  have "distinct ''0123456789''" by simp
  moreover have "a < length ''0123456789''" "b < length ''0123456789''" using assms by simp_all
  ultimately show ?thesis using assms(3) unfolding digit_char_def
    by (simp only: nth_eq_iff_index_eq)
qed

lemma str_nat_nonempty: "str_nat n \<noteq> []"
  by (subst str_nat.simps) simp

lemma str_nat_inj: "str_nat m = str_nat n \<Longrightarrow> m = n"
proof (induction m arbitrary: n rule: str_nat.induct)
  case (1 m)
  show ?case
  proof (cases "m < 10")
    case True
    then have m: "str_nat m = [digit_char m]" by (subst str_nat.simps) simp
    show ?thesis
    proof (cases "n < 10")
      case n: True
      then have "str_nat n = [digit_char n]" by (subst str_nat.simps) simp
      with m "1.prems" have "digit_char m = digit_char n" by simp
      with True n show ?thesis by (rule digit_char_inj)
    next
      case False
      then have "str_nat n = str_nat (n div 10) @ [digit_char (n mod 10)]"
        by (subst str_nat.simps) simp
      with m "1.prems" have "str_nat (n div 10) = []" by simp
      then show ?thesis by (simp add: str_nat_nonempty)
    qed
  next
    case False
    then have m: "str_nat m = str_nat (m div 10) @ [digit_char (m mod 10)]"
      by (subst str_nat.simps) simp
    show ?thesis
    proof (cases "n < 10")
      case True
      then have "str_nat n = [digit_char n]" by (subst str_nat.simps) simp
      with m "1.prems" have "str_nat (m div 10) = []" by simp
      then show ?thesis by (simp add: str_nat_nonempty)
    next
      case n: False
      then have "str_nat n = str_nat (n div 10) @ [digit_char (n mod 10)]"
        by (subst str_nat.simps) simp
      with m "1.prems" have eq: "str_nat (m div 10) = str_nat (n div 10)"
        and d: "digit_char (m mod 10) = digit_char (n mod 10)" by simp_all
      from "1.IH" [OF False eq] have q: "m div 10 = n div 10" .
      have r: "m mod 10 = n mod 10" by (rule digit_char_inj [OF _ _ d]) simp_all
      have "m = 10 * (m div 10) + m mod 10" by simp
      also have "\<dots> = 10 * (n div 10) + n mod 10" by (simp only: q r)
      also have "\<dots> = n" by simp
      finally show ?thesis .
    qed
  qed
qed

lemma order_id_inj: "''ORD-'' @ str_nat m = ''ORD-'' @ str_nat n \<longleftrightarrow> m = n"
  by (auto dest: str_nat_inj)

lemma create_order_new_id:
  "create_order self name =
     (''Order created for '' @ name @ '' with order ID: '' @ new_order_id self @
        ''. You can now add items to this order.'',
      \<lparr>current_orders = (current_orders self)
         (new_order_id self \<mapsto> \<lparr>customer_name = name, items = [], total = Finite 0\<rparr>),
       order_counter = order_counter self + 1\<rparr>)"
  by (simp add: create_order_def new_order_id_def Let_def)

lemma exec_counter:
  "order_counter (exec self c) = order_counter self + (if is_create c then 1 else 0)"
  by (cases c)
     (auto simp: exec_def create_order_new_id add_item_to_order_def get_order_status_def
        complete_order_def Let_def split: sum.splits option.splits if_splits)

lemma exec_dom:
  "dom (current_orders (exec self c)) =
     dom (current_orders self) \<union> (if is_create c then {new_order_id self} else {})"
  by (cases c)
     (auto simp: exec_def create_order_new_id add_item_to_order_def get_order_status_def
        complete_order_def Let_def split: sum.splits option.splits if_splits)

lemma created_ids_from:
  "created_ids self cs =
     map (\<lambda>n. ''ORD-'' @ str_nat n)
       [Suc (order_counter self) ..< Suc (order_counter self) + length (filter is_create cs)]
   \<and> order_counter (run self cs) = order_counter self + length (filter is_create cs)
   \<and> dom (current_orders (run self cs)) = dom (current_orders self) \<union> set (created_ids self cs)"
proof (induction cs arbitrary: self)
  case Nil
  show ?case by simp
next
  case (Cons c cs)
  note ih = Cons.IH [of "exec self c"]
  show ?case
  proof (cases "is_create c")
    case True
    have u: "[Suc (order_counter self) ..<
               Suc (order_counter self) + Suc (length (filter is_create cs))] =
             Suc (order_counter self) #
             [Suc (Suc (order_counter self)) ..<
               Suc (Suc (order_counter self)) + length (filter is_create cs)]"
      by (simp add: upt_conv_Cons del: upt_Suc)
    from True ih show ?thesis
      by (simp add: exec_counter exec_dom new_order_id_def upt_conv_Cons del: upt_Suc)
  next
    case False
    then show ?thesis using ih by (simp add: exec_counter exec_dom)
  qed
qed

section \<open>The item summary\<close>

lemma summarise_snoc: "summarise acc (xs @ [x]) = count_item (summarise acc xs) x"
  by (induction xs arbitrary: acc) simp_all

lemma count_item_map:
  "distinct ys \<Longrightarrow>
   count_item (map (\<lambda>y. (y, f y)) ys) x =
     (if x \<in> set ys then map (\<lambda>y. (y, if y = x then f y + 1 else f y)) ys
      else map (\<lambda>y. (y, f y)) ys @ [(x, 1)])"
  by (induction ys) auto

lemma first_seen_snoc:
  "rev (remdups (rev (xs @ [x]))) =
     (if x \<in> set xs then rev (remdups (rev xs)) else rev (remdups (rev xs)) @ [x])"
  by simp

lemma summarise_first_seen:
  "summarise [] xs = map (\<lambda>x. (x, count_list xs x)) (rev (remdups (rev xs)))"
proof (induction xs rule: rev_induct)
  case Nil
  show ?case by simp
next
  case (snoc x xs)
  let ?ys = "rev (remdups (rev xs))"
  have d: "distinct ?ys" by simp
  have s: "set ?ys = set xs" by simp
  have "summarise [] (xs @ [x]) = count_item (map (\<lambda>y. (y, count_list xs y)) ?ys) x"
    by (simp only: summarise_snoc snoc.IH)
  also have "\<dots> = (if x \<in> set xs
       then map (\<lambda>y. (y, if y = x then count_list xs y + 1 else count_list xs y)) ?ys
       else map (\<lambda>y. (y, count_list xs y)) ?ys @ [(x, 1)])"
    by (simp only: count_item_map [OF d] s)
  also have "\<dots> = map (\<lambda>y. (y, count_list (xs @ [x]) y)) (rev (remdups (rev (xs @ [x]))))"
  proof (cases "x \<in> set xs")
    case True
    then show ?thesis by (simp only: first_seen_snoc if_True) auto
  next
    case False
    then have "count_list xs x = 0" by (simp add: count_list_0_iff)
    with False show ?thesis by (simp only: first_seen_snoc if_False) auto
  qed
  finally show ?case .
qed

lemma items_list_first_seen:
  "items_list xs = map (\<lambda>x. str_nat (count_list xs x) @ ''x '' @ x) (rev (remdups (rev xs)))"
  by (simp add: items_list_def summarise_first_seen)

lemma py_lower_keys: "k \<in> dom price_lookup \<Longrightarrow> py_lower k = k"
  by (auto simp: dom_price_lookup py_lower_def char_lower_def)


lemma add_item_to_order_success:
  assumes "current_orders self order_id = Some ord"
    and "price_lookup (py_lower item_name) = Some item_price"
    and "float_of_int quantity = Inr (Finite r)"
  shows "add_item_to_order self order_id item_name quantity =
           Inr (''Added '' @ str_int quantity @ ''x '' @ item_name @
                  '' ($'' @ float_repr item_price @ '' each) to order '' @
                  order_id @ ''. Current order total: $'' @
                  format_2f (fadd (total ord) (fmul item_price (Finite r))),
                self\<lparr>current_orders := (current_orders self)
                  (order_id \<mapsto> ord\<lparr>items := items ord @ replicate (nat quantity) item_name,
                                    total := fadd (total ord) (fmul item_price (Finite r))\<rparr>)\<rparr>)"
  using assms
  by (simp add: add_item_to_order_def Let_def fmul_int_def append_times_replicate)

section \<open>Adding one unit\<close>

lemma literal_times_one:
  "fmul (float_literal (1099 / 100)) (Finite 1) = float_literal (1099 / 100)"
  "fmul (float_literal (1299 / 100)) (Finite 1) = float_literal (1299 / 100)"
  "fmul (float_literal (1199 / 100)) (Finite 1) = float_literal (1199 / 100)"
  "fmul (float_literal (1399 / 100)) (Finite 1) = float_literal (1399 / 100)"
  "fmul (float_literal (1499 / 100)) (Finite 1) = float_literal (1499 / 100)"
  "fmul (float_literal (499 / 100)) (Finite 1) = float_literal (499 / 100)"
  "fmul (float_literal (599 / 100)) (Finite 1) = float_literal (599 / 100)"
  "fmul (float_literal (899 / 100)) (Finite 1) = float_literal (899 / 100)"
  "fmul (float_literal (199 / 100)) (Finite 1) = float_literal (199 / 100)"
  "fmul (float_literal (149 / 100)) (Finite 1) = float_literal (149 / 100)"
  by (simp_all add: fop_eval float_eval)

lemma price_times_one:
  assumes "price_lookup k = Some p"
  shows "fmul p (Finite 1) = p"
proof -
  have "(k, p) \<in> set price_table"
    using assms unfolding price_lookup_def by (rule map_of_SomeD)
  then have "p \<in> snd ` set price_table" by force
  then have "p \<in> {float_literal (1099 / 100), float_literal (1299 / 100),
      float_literal (1199 / 100), float_literal (1399 / 100), float_literal (1499 / 100),
      float_literal (499 / 100), float_literal (599 / 100), float_literal (899 / 100),
      float_literal (199 / 100), float_literal (149 / 100)}"
    by (auto simp: price_table_def)
  then show ?thesis
    by (auto simp: literal_times_one)
qed


lemma float_of_int_1: "float_of_int 1 = Inr (Finite 1)"
  using float_of_int_exact [of 1] by simp

lemma items_list_twice: "items_list [x, x] = [''2x '' @ x]"
  by (simp add: items_list_def text_eval)

lemma add_item_twice:
  assumes "current_orders self order_id = Some ord"
    and "items ord = []" and "total ord = Finite 0"
    and "price_lookup (py_lower item_name) = Some p"
  shows "\<exists>m1 s1 m2 s2.
           add_item_to_order self order_id item_name 1 = Inr (m1, s1)
         \<and> add_item_to_order s1 order_id item_name 1 = Inr (m2, s2)
         \<and> current_orders s2 order_id =
             Some (ord\<lparr>items := [item_name, item_name], total := fadd (fadd (Finite 0) p) p\<rparr>)
         \<and> (\<forall>k. k \<noteq> order_id \<longrightarrow> current_orders s2 k = current_orders self k)
         \<and> order_counter s2 = order_counter self"
proof -
  define o1 where "o1 = ord\<lparr>items := [item_name], total := fadd (Finite 0) p\<rparr>"
  define s1 where "s1 = self\<lparr>current_orders := (current_orders self)(order_id \<mapsto> o1)\<rparr>"
  define o2 where "o2 = ord\<lparr>items := [item_name, item_name], total := fadd (fadd (Finite 0) p) p\<rparr>"
  define s2 where "s2 = s1\<lparr>current_orders := (current_orders s1)(order_id \<mapsto> o2)\<rparr>"
  have p1: "fmul p (Finite 1) = p" using assms(4) by (rule price_times_one)
  from add_item_to_order_success [OF assms(1) assms(4) float_of_int_1]
  have a1: "\<exists>m1. add_item_to_order self order_id item_name 1 = Inr (m1, s1)"
    by (simp add: p1 assms(2,3) s1_def o1_def)
  have c1: "current_orders s1 order_id = Some o1" by (simp add: s1_def)
  from add_item_to_order_success [OF c1 assms(4) float_of_int_1]
  have a2: "\<exists>m2. add_item_to_order s1 order_id item_name 1 = Inr (m2, s2)"
    by (simp add: p1 s2_def o2_def o1_def)
  have c2: "current_orders s2 order_id = Some o2" by (simp add: s2_def)
  have f: "\<forall>k. k \<noteq> order_id \<longrightarrow> current_orders s2 k = current_orders self k"
    by (simp add: s2_def s1_def)
  have n: "order_counter s2 = order_counter self" by (simp add: s2_def s1_def)
  from a1 a2 c2 f n show ?thesis unfolding o2_def by blast
qed

lemma soda_twice:
  "format_2f (fadd (fadd (Finite 0) (float_literal (199 / 100))) (float_literal (199 / 100))) =
     ''3.98''"
  by (simp add: fop_eval float_eval format_2f_def text_eval)

section \<open>The total along a sequence of calls\<close>

lemma exec_add_item_cases:
  "exec self (AddItem oid n q) = self
   \<or> (\<exists>ord t. current_orders self oid = Some ord \<and> item_charge n q = Some t
        \<and> exec self (AddItem oid n q) =
            self\<lparr>current_orders := (current_orders self)
              (oid \<mapsto> ord\<lparr>items := items ord @ replicate (nat q) n,
                            total := fadd (total ord) t\<rparr>)\<rparr>)"
  by (auto simp: exec_def add_item_to_order_def item_charge_def Let_def append_times_replicate
           split: option.splits sum.splits)

lemma exec_other_calls:
  "exec self (GetOrderStatus oid) = self" "exec self (CompleteOrder oid) = self"
  "exec self (CreateOrder name) =
     \<lparr>current_orders = (current_orders self)
        (new_order_id self \<mapsto> \<lparr>customer_name = name, items = [], total = Finite 0\<rparr>),
      order_counter = order_counter self + 1\<rparr>"
  by (auto simp: exec_def get_order_status_def complete_order_def create_order_new_id
           split: option.splits)

lemma accumulated_new: "accumulated \<lparr>customer_name = c, items = [], total = Finite 0\<rparr>"
  unfolding accumulated_def by (rule exI [of _ "[]"]) simp

lemma accumulated_add:
  assumes "accumulated ord" and "0 \<le> q" and "item_charge n q = Some t"
  shows "accumulated (ord\<lparr>items := items ord @ replicate (nat q) n, total := fadd (total ord) t\<rparr>)"
proof -
  from assms(1) obtain adds where
    a: "\<forall>(n, q, t) \<in> set adds. 0 \<le> q \<and> item_charge n q = Some t"
    and i: "items ord = concat (map (\<lambda>(n, q, t). replicate (nat q) n) adds)"
    and s: "total ord = foldl fadd (Finite 0) (map (\<lambda>(n, q, t). t) adds)"
    unfolding accumulated_def by blast
  show ?thesis
    unfolding accumulated_def
    by (rule exI [of _ "adds @ [(n, q, t)]"]) (use a i s assms(2,3) in auto)
qed

lemma unit_sum_new: "unit_sum \<lparr>customer_name = c, items = [], total = Finite 0\<rparr>"
  unfolding unit_sum_def by (rule exI [of _ "[]"]) simp

lemma item_charge_one:
  assumes "item_charge n 1 = Some t"
  shows "price_lookup (py_lower n) = Some t"
proof -
  from assms obtain p where p: "price_lookup (py_lower n) = Some p"
    and m: "fmul_int p 1 = Inr t"
    by (auto simp: item_charge_def split: option.splits sum.splits)
  from m have "t = fmul p (Finite 1)" by (simp add: fmul_int_def float_of_int_1)
  with price_times_one [OF p] p show ?thesis by simp
qed

lemma unit_sum_add:
  assumes "unit_sum ord" and "item_charge n 1 = Some t"
  shows "unit_sum (ord\<lparr>items := items ord @ replicate (nat 1) n, total := fadd (total ord) t\<rparr>)"
proof -
  from assms(1) obtain ps where
    i: "map (\<lambda>n. price_lookup (py_lower n)) (items ord) = map Some ps"
    and s: "total ord = foldl fadd (Finite 0) ps"
    unfolding unit_sum_def by blast
  show ?thesis
    unfolding unit_sum_def
    by (rule exI [of _ "ps @ [t]"]) (use i s item_charge_one [OF assms(2)] in simp)
qed

lemma exec_accumulated:
  assumes "\<forall>oid ord. current_orders self oid = Some ord \<longrightarrow> accumulated ord"
    and "\<forall>oid n q. c = AddItem oid n q \<longrightarrow> 0 \<le> q"
  shows "\<forall>oid ord. current_orders (exec self c) oid = Some ord \<longrightarrow> accumulated ord"
proof (cases c)
  case (CreateOrder name)
  with assms(1) show ?thesis by (auto simp: exec_other_calls accumulated_new)
next
  case (AddItem oid n q)
  with assms(2) have q: "0 \<le> q" by simp
  from exec_add_item_cases [of self oid n q] show ?thesis
  proof
    assume "exec self (AddItem oid n q) = self"
    with assms(1) AddItem show ?thesis by simp
  next
    assume "\<exists>ord t. current_orders self oid = Some ord \<and> item_charge n q = Some t
        \<and> exec self (AddItem oid n q) =
            self\<lparr>current_orders := (current_orders self)
              (oid \<mapsto> ord\<lparr>items := items ord @ replicate (nat q) n,
                            total := fadd (total ord) t\<rparr>)\<rparr>"
    then obtain ord t where o: "current_orders self oid = Some ord"
      and t: "item_charge n q = Some t"
      and e: "exec self (AddItem oid n q) =
            self\<lparr>current_orders := (current_orders self)
              (oid \<mapsto> ord\<lparr>items := items ord @ replicate (nat q) n,
                            total := fadd (total ord) t\<rparr>)\<rparr>"
      by blast
    from assms(1) o have "accumulated ord" by blast
    from accumulated_add [OF this q t] assms(1) show ?thesis
      unfolding AddItem e by auto
  qed
next
  case (GetOrderStatus oid)
  with assms(1) show ?thesis by (simp add: exec_other_calls)
next
  case (CompleteOrder oid)
  with assms(1) show ?thesis by (simp add: exec_other_calls)
qed

lemma exec_unit_sum:
  assumes "\<forall>oid ord. current_orders self oid = Some ord \<longrightarrow> unit_sum ord"
    and "\<forall>oid n q. c = AddItem oid n q \<longrightarrow> q = 1"
  shows "\<forall>oid ord. current_orders (exec self c) oid = Some ord \<longrightarrow> unit_sum ord"
proof (cases c)
  case (CreateOrder name)
  with assms(1) show ?thesis by (auto simp: exec_other_calls unit_sum_new)
next
  case (AddItem oid n q)
  with assms(2) have q: "q = 1" by simp
  from exec_add_item_cases [of self oid n q] show ?thesis
  proof
    assume "exec self (AddItem oid n q) = self"
    with assms(1) AddItem show ?thesis by simp
  next
    assume "\<exists>ord t. current_orders self oid = Some ord \<and> item_charge n q = Some t
        \<and> exec self (AddItem oid n q) =
            self\<lparr>current_orders := (current_orders self)
              (oid \<mapsto> ord\<lparr>items := items ord @ replicate (nat q) n,
                            total := fadd (total ord) t\<rparr>)\<rparr>"
    then obtain ord t where o: "current_orders self oid = Some ord"
      and t: "item_charge n 1 = Some t"
      and e: "exec self (AddItem oid n q) =
            self\<lparr>current_orders := (current_orders self)
              (oid \<mapsto> ord\<lparr>items := items ord @ replicate (nat 1) n,
                            total := fadd (total ord) t\<rparr>)\<rparr>"
      unfolding q by blast
    from assms(1) o have "unit_sum ord" by blast
    from unit_sum_add [OF this t] assms(1) show ?thesis
      unfolding AddItem e by auto
  qed
next
  case (GetOrderStatus oid)
  with assms(1) show ?thesis by (simp add: exec_other_calls)
next
  case (CompleteOrder oid)
  with assms(1) show ?thesis by (simp add: exec_other_calls)
qed

lemma run_accumulated:
  assumes "\<forall>oid ord. current_orders self oid = Some ord \<longrightarrow> accumulated ord"
    and "\<forall>oid n q. AddItem oid n q \<in> set cs \<longrightarrow> 0 \<le> q"
  shows "\<forall>oid ord. current_orders (run self cs) oid = Some ord \<longrightarrow> accumulated ord"
  using assms
proof (induction cs arbitrary: self)
  case Nil
  then show ?case by simp
next
  case (Cons c cs)
  have "\<forall>oid ord. current_orders (exec self c) oid = Some ord \<longrightarrow> accumulated ord"
    by (rule exec_accumulated [OF Cons.prems(1)]) (use Cons.prems(2) in auto)
  from Cons.IH [OF this] Cons.prems(2) show ?case by simp
qed

lemma run_unit_sum:
  assumes "\<forall>oid ord. current_orders self oid = Some ord \<longrightarrow> unit_sum ord"
    and "\<forall>oid n q. AddItem oid n q \<in> set cs \<longrightarrow> q = 1"
  shows "\<forall>oid ord. current_orders (run self cs) oid = Some ord \<longrightarrow> unit_sum ord"
  using assms
proof (induction cs arbitrary: self)
  case Nil
  then show ?case by simp
next
  case (Cons c cs)
  have "\<forall>oid ord. current_orders (exec self c) oid = Some ord \<longrightarrow> unit_sum ord"
    by (rule exec_unit_sum [OF Cons.prems(1)]) (use Cons.prems(2) in auto)
  from Cons.IH [OF this] Cons.prems(2) show ?case by simp
qed

section \<open>Rejected additions\<close>

text \<open>
  Claim C5.  When the order id is not a key of \<^verbatim>\<open>current_orders\<close>, whatever the item
  name and the quantity, \<^verbatim>\<open>add_item_to_order\<close> answers with the not-found message and
  returns the plugin object as it was: no entry is created and none is modified.
\<close>

theorem add_item_unknown_order:
  assumes "current_orders self order_id = None"
  shows "add_item_to_order self order_id item_name quantity =
           Inr (''Order ID '' @ order_id @ '' not found. Please create an order first.'', self)
         \<and> exec self (AddItem order_id item_name quantity) = self"
  using assms by (simp add: add_item_to_order_def exec_def)

theorem add_item_unknown_order_witness:
  "current_orders init ''ORD-7'' = None
   \<and> add_item_to_order init ''ORD-7'' ''soda'' 3 =
       Inr (''Order ID ORD-7 not found. Please create an order first.'', init)
   \<and> exec init (AddItem ''ORD-7'' ''soda'' 3) = init"
  using add_item_unknown_order [of init "''ORD-7''" "''soda''" 3]
  by (simp add: init_def)

text \<open>
  Claim C6.  When the order exists and the lowercased item name is not a key of the
  price table, \<^verbatim>\<open>add_item_to_order\<close> answers with the item-not-found message and
  returns the plugin object as it was, so the total and the item list of the order
  are unchanged.
\<close>

theorem add_item_unknown_item:
  assumes "current_orders self order_id = Some ord"
    and "price_lookup (py_lower item_name) = None"
  shows "add_item_to_order self order_id item_name quantity =
           Inr (''Item '' @ quote @ item_name @ quote @
                  '' not found in our menu. Please check the menu for available items.'', self)
         \<and> exec self (AddItem order_id item_name quantity) = self"
  using assms by (simp add: add_item_to_order_def exec_def)

theorem add_item_unknown_item_witness:
  "current_orders (snd (create_order init ''Alice'')) ''ORD-1'' =
     Some \<lparr>customer_name = ''Alice'', items = [], total = Finite 0\<rparr>
   \<and> price_lookup (py_lower ''Calzone'') = None
   \<and> add_item_to_order (snd (create_order init ''Alice'')) ''ORD-1'' ''Calzone'' 2 =
       Inr (''Item '' @ quote @ ''Calzone'' @ quote @
              '' not found in our menu. Please check the menu for available items.'',
            snd (create_order init ''Alice''))
   \<and> exec (snd (create_order init ''Alice'')) (AddItem ''ORD-1'' ''Calzone'' 2) =
       snd (create_order init ''Alice'')"
proof -
  have 1: "current_orders (snd (create_order init ''Alice'')) ''ORD-1'' =
     Some \<lparr>customer_name = ''Alice'', items = [], total = Finite 0\<rparr>"
    by (simp add: first_order)
  have 2: "price_lookup (py_lower ''Calzone'') = None"
    by (simp add: price_lookup_def price_table_def py_lower_def char_lower_def char_of_eq_iff)
  from add_item_unknown_item [OF 1 2, of 2] 1 2 show ?thesis by simp
qed

section \<open>Completing an order\<close>

text \<open>
  Claim C7.  For an existing order, \<^verbatim>\<open>complete_order\<close> answers with a message that
  contains the customer name and the current total in the format \<^verbatim>\<open>.2f\<close>, and it
  returns the plugin object as it was: the entry is still there with the same
  content, and \<^verbatim>\<open>get_order_status\<close> after it reports the same customer and total.
\<close>

theorem complete_order_frame:
  assumes "current_orders self order_id = Some ord"
  shows "\<exists>msg status.
           complete_order self order_id = Inr (msg, self)
         \<and> sublist (''Thank you, '' @ customer_name ord @ ''!'') msg
         \<and> sublist (''Total: $'' @ format_2f (total ord) @ newline) msg
         \<and> exec self (CompleteOrder order_id) = self
         \<and> current_orders (exec self (CompleteOrder order_id)) order_id = Some ord
         \<and> get_order_status (exec self (CompleteOrder order_id)) order_id = Inr (status, self)
         \<and> sublist (''Customer: '' @ customer_name ord @ newline) status
         \<and> sublist (''Total: $'' @ format_2f (total ord) @ newline) status"
proof -
  let ?msg = "newline @ ''        Thank you, '' @ customer_name ord @ ''!'' @
                  newline @ ''        '' @
                  newline @ ''        Your order (ID: '' @ order_id @
                    '') has been confirmed and is being prepared.'' @
                  newline @ ''        Total: $'' @ format_2f (total ord) @
                  newline @ ''        '' @
                  newline @
                    ''        Your delicious pizza will be ready in approximately 25-30 minutes.'' @
                  newline @ ''        ''"
  let ?status = "newline @ ''        Order ID: '' @ order_id @
                  newline @ ''        Customer: '' @ customer_name ord @
                  newline @ ''        Items: '' @ join '', '' (items_list (items ord)) @
                  newline @ ''        Total: $'' @ format_2f (total ord) @
                  newline @ ''        ''"
  have c: "complete_order self order_id = Inr (?msg, self)"
    using assms by (simp add: complete_order_def)
  have e: "exec self (CompleteOrder order_id) = self"
    using c by (simp add: exec_def)
  have g: "get_order_status self order_id = Inr (?status, self)"
    using assms by (simp add: get_order_status_def)
  have m1: "sublist (''Thank you, '' @ customer_name ord @ ''!'') ?msg"
    unfolding sublist_def
    by (rule exI [of _ "newline @ ''        ''"], rule exI) simp
  have m2: "sublist (''Total: $'' @ format_2f (total ord) @ newline) ?msg"
    unfolding sublist_def
    by (rule exI [of _ "newline @ ''        Thank you, '' @ customer_name ord @ ''!'' @
                  newline @ ''        '' @
                  newline @ ''        Your order (ID: '' @ order_id @
                    '') has been confirmed and is being prepared.'' @
                  newline @ ''        ''"], rule exI) simp
  have s1: "sublist (''Customer: '' @ customer_name ord @ newline) ?status"
    unfolding sublist_def
    by (rule exI [of _ "newline @ ''        Order ID: '' @ order_id @ newline @ ''        ''"],
        rule exI) simp
  have s2: "sublist (''Total: $'' @ format_2f (total ord) @ newline) ?status"
    unfolding sublist_def
    by (rule exI [of _ "newline @ ''        Order ID: '' @ order_id @
                  newline @ ''        Customer: '' @ customer_name ord @
                  newline @ ''        Items: '' @ join '', '' (items_list (items ord)) @
                  newline @ ''        ''"], rule exI) simp
  show ?thesis
    using c e g m1 m2 s1 s2 assms by (intro exI [of _ ?msg] exI [of _ ?status]) simp
qed

theorem complete_order_frame_witness:
  "current_orders (snd (create_order init ''Alice'')) ''ORD-1'' =
     Some \<lparr>customer_name = ''Alice'', items = [], total = Finite 0\<rparr>
   \<and> (\<exists>msg status.
         complete_order (snd (create_order init ''Alice'')) ''ORD-1'' =
           Inr (msg, snd (create_order init ''Alice''))
       \<and> sublist ''Thank you, Alice!'' msg
       \<and> sublist (''Total: $0.00'' @ newline) msg
       \<and> exec (snd (create_order init ''Alice'')) (CompleteOrder ''ORD-1'') =
           snd (create_order init ''Alice'')
       \<and> current_orders (exec (snd (create_order init ''Alice'')) (CompleteOrder ''ORD-1''))
             ''ORD-1'' = Some \<lparr>customer_name = ''Alice'', items = [], total = Finite 0\<rparr>
       \<and> get_order_status (exec (snd (create_order init ''Alice'')) (CompleteOrder ''ORD-1''))
             ''ORD-1'' = Inr (status, snd (create_order init ''Alice''))
       \<and> sublist (''Customer: Alice'' @ newline) status
       \<and> sublist (''Total: $0.00'' @ newline) status)"
proof -
  have 1: "current_orders (snd (create_order init ''Alice'')) ''ORD-1'' =
     Some \<lparr>customer_name = ''Alice'', items = [], total = Finite 0\<rparr>"
    by (simp add: first_order)
  from complete_order_frame [OF 1] 1 show ?thesis
    by (simp add: format_2f_zero)
qed

section \<open>Creating an order\<close>

text \<open>
  Claim C9.  \<^verbatim>\<open>create_order\<close> has no failing branch, whatever the customer name (the
  empty string included): it answers with the confirmation that names the new id,
  and \<^verbatim>\<open>get_order_status\<close> on that id right afterwards reports the customer name, an
  empty item summary and the total \<^verbatim>\<open>0.00\<close>.
\<close>

theorem create_order_then_status:
  "fst (create_order self name) =
     ''Order created for '' @ name @ '' with order ID: '' @
       ''ORD-'' @ str_nat (order_counter self + 1) @ ''. You can now add items to this order.''
   \<and> current_orders (snd (create_order self name)) (''ORD-'' @ str_nat (order_counter self + 1)) =
       Some \<lparr>customer_name = name, items = [], total = Finite 0\<rparr>
   \<and> get_order_status (snd (create_order self name))
         (''ORD-'' @ str_nat (order_counter self + 1)) =
       Inr (newline @ ''        Order ID: '' @ ''ORD-'' @ str_nat (order_counter self + 1) @
            newline @ ''        Customer: '' @ name @
            newline @ ''        Items: '' @
            newline @ ''        Total: $0.00'' @
            newline @ ''        '',
            snd (create_order self name))"
  by (simp add: create_order_def get_order_status_def Let_def items_list_def format_2f_zero)

theorem create_order_then_status_witness:
  "fst (create_order init ''Alice'') =
     ''Order created for Alice with order ID: ORD-1. You can now add items to this order.''
   \<and> get_order_status (snd (create_order init ''Alice'')) ''ORD-1'' =
       Inr (newline @ ''        Order ID: ORD-1'' @
            newline @ ''        Customer: Alice'' @
            newline @ ''        Items: '' @
            newline @ ''        Total: $0.00'' @
            newline @ ''        '',
            snd (create_order init ''Alice''))
   \<and> get_order_status (snd (create_order init [])) ''ORD-1'' =
       Inr (newline @ ''        Order ID: ORD-1'' @
            newline @ ''        Customer: '' @
            newline @ ''        Items: '' @
            newline @ ''        Total: $0.00'' @
            newline @ ''        '',
            snd (create_order init []))"
  using create_order_then_status [of init "''Alice''"] create_order_then_status [of init "[]"]
  by (simp add: init_def str_nat_1)

section \<open>Which calls return\<close>

text \<open>
  Claim C10, amended.  \<^verbatim>\<open>create_order\<close>, \<^verbatim>\<open>get_order_status\<close> and \<^verbatim>\<open>complete_order\<close>
  return a string for all arguments, and the last two leave the plugin object as
  it was.  \<^verbatim>\<open>add_item_to_order\<close> returns a string unless the order exists, the item
  is in the price table and the magnitude of the quantity is at least
  \<open>float_int_limit\<close>: then the product \<^verbatim>\<open>item_price * quantity\<close> raises
  \<^verbatim>\<open>OverflowError\<close>, and no other exception is possible.  An unknown order id and
  an item that is not in the table are reported by the returned message alone.
\<close>

theorem operations_return_strings:
  "(\<exists>msg self'. step self (CreateOrder name) = Inr (msg, self'))
   \<and> (\<exists>msg. step self (GetOrderStatus order_id) = Inr (msg, self))
   \<and> (\<exists>msg. step self (CompleteOrder order_id) = Inr (msg, self))
   \<and> (step self (AddItem order_id item_name quantity) = Inl OverflowError \<longleftrightarrow>
        current_orders self order_id \<noteq> None \<and> price_lookup (py_lower item_name) \<noteq> None
        \<and> float_int_limit \<le> \<bar>quantity\<bar>)
   \<and> (step self (AddItem order_id item_name quantity) \<noteq> Inl OverflowError \<longrightarrow>
        (\<exists>msg self'. step self (AddItem order_id item_name quantity) = Inr (msg, self')))
   \<and> (current_orders self order_id = None \<longrightarrow>
        step self (AddItem order_id item_name quantity) =
          Inr (''Order ID '' @ order_id @ '' not found. Please create an order first.'', self)
        \<and> step self (GetOrderStatus order_id) =
          Inr (''Order ID '' @ order_id @ '' not found. Please check your order ID.'', self)
        \<and> step self (CompleteOrder order_id) =
          Inr (''Order ID '' @ order_id @ '' not found. Please check your order ID.'', self))
   \<and> (current_orders self order_id \<noteq> None \<and> price_lookup (py_lower item_name) = None \<longrightarrow>
        step self (AddItem order_id item_name quantity) =
          Inr (''Item '' @ quote @ item_name @ quote @
                 '' not found in our menu. Please check the menu for available items.'', self))"
proof -
  have c: "\<exists>msg self'. step self (CreateOrder name) = Inr (msg, self')"
    by (cases "create_order self name") simp
  have g: "\<exists>msg. step self (GetOrderStatus order_id) = Inr (msg, self)"
    by (cases "current_orders self order_id") (simp_all add: get_order_status_def)
  have d: "\<exists>msg. step self (CompleteOrder order_id) = Inr (msg, self)"
    by (cases "current_orders self order_id") (simp_all add: complete_order_def)
  have a: "step self (AddItem order_id item_name quantity) = Inl OverflowError \<longleftrightarrow>
        current_orders self order_id \<noteq> None \<and> price_lookup (py_lower item_name) \<noteq> None
        \<and> float_int_limit \<le> \<bar>quantity\<bar>"
    by (simp add: add_item_to_order_raises_iff)
  have b: "step self (AddItem order_id item_name quantity) \<noteq> Inl OverflowError \<longrightarrow>
        (\<exists>msg self'. step self (AddItem order_id item_name quantity) = Inr (msg, self'))"
  proof (cases "add_item_to_order self order_id item_name quantity")
    case (Inl e)
    then have "e = OverflowError" by (simp add: add_item_to_order_raises_iff)
    with Inl show ?thesis by simp
  next
    case (Inr p)
    then show ?thesis by (cases p) simp
  qed
  have n: "current_orders self order_id = None \<longrightarrow>
        step self (AddItem order_id item_name quantity) =
          Inr (''Order ID '' @ order_id @ '' not found. Please create an order first.'', self)
        \<and> step self (GetOrderStatus order_id) =
          Inr (''Order ID '' @ order_id @ '' not found. Please check your order ID.'', self)
        \<and> step self (CompleteOrder order_id) =
          Inr (''Order ID '' @ order_id @ '' not found. Please check your order ID.'', self)"
    by (simp add: add_item_to_order_def get_order_status_def complete_order_def)
  have i: "current_orders self order_id \<noteq> None \<and> price_lookup (py_lower item_name) = None \<longrightarrow>
        step self (AddItem order_id item_name quantity) =
          Inr (''Item '' @ quote @ item_name @ quote @
                 '' not found in our menu. Please check the menu for available items.'', self)"
    by (simp add: add_item_to_order_def)
  from c g d a b n i show ?thesis by blast
qed

lemma price_lookup_margherita:
  "price_lookup (py_lower ''Margherita'') = Some (float_literal (1099 / 100))"
  by (simp add: price_lookup_def price_table_def py_lower_def char_lower_def char_of_eq_iff)

theorem add_item_huge_quantity_raises:
  "step (snd (create_order init ''Alice'')) (AddItem ''ORD-1'' ''Margherita'' (2 ^ 1024)) =
     Inl OverflowError"
  by (simp add: add_item_to_order_raises_iff first_order price_lookup_margherita
        float_int_limit_def)

theorem operations_return_strings_witness:
  "current_orders (snd (create_order init ''Alice'')) ''ORD-1'' \<noteq> None
   \<and> price_lookup (py_lower ''Margherita'') \<noteq> None
   \<and> \<not> float_int_limit \<le> \<bar>3\<bar>
   \<and> (\<exists>msg self'. step (snd (create_order init ''Alice'')) (AddItem ''ORD-1'' ''Margherita'' 3) =
         Inr (msg, self'))
   \<and> current_orders (snd (create_order init ''Alice'')) ''ORD-2'' = None
   \<and> step (snd (create_order init ''Alice'')) (GetOrderStatus ''ORD-2'') =
       Inr (''Order ID ORD-2 not found. Please check your order ID.'',
            snd (create_order init ''Alice''))
   \<and> price_lookup (py_lower ''Calzone'') = None
   \<and> step (snd (create_order init ''Alice'')) (AddItem ''ORD-1'' ''Calzone'' 3) =
       Inr (''Item '' @ quote @ ''Calzone'' @ quote @
              '' not found in our menu. Please check the menu for available items.'',
            snd (create_order init ''Alice''))"
proof -
  have 1: "current_orders (snd (create_order init ''Alice'')) ''ORD-1'' \<noteq> None"
    by (simp add: first_order)
  have 2: "price_lookup (py_lower ''Margherita'') \<noteq> None"
    by (simp add: price_lookup_margherita)
  have 3: "\<not> float_int_limit \<le> \<bar>3\<bar>"
    by (simp add: float_int_limit_def)
  have 4: "current_orders (snd (create_order init ''Alice'')) ''ORD-2'' = None"
    by (simp add: first_order)
  have 5: "price_lookup (py_lower ''Calzone'') = None"
    by (simp add: price_lookup_def price_table_def py_lower_def char_lower_def char_of_eq_iff)
  from operations_return_strings
         [of "snd (create_order init ''Alice'')" "''Bob''" "''ORD-1''" "''Margherita''" 3]
       operations_return_strings
         [of "snd (create_order init ''Alice'')" "''Bob''" "''ORD-2''" "''Margherita''" 3]
       operations_return_strings
         [of "snd (create_order init ''Alice'')" "''Bob''" "''ORD-1''" "''Calzone''" 3]
       1 2 3 4 5
  show ?thesis by simp
qed

section \<open>Zero and negative quantities\<close>

text \<open>
  Claim C2, amended.  For an existing order, an item of the price table and a
  quantity that is zero or negative, of magnitude below \<open>float_int_limit\<close>,
  \<^verbatim>\<open>add_item_to_order\<close> does not reject the call: it answers with the confirmation
  \<^verbatim>\<open>Added ...\<close>, leaves the item list as it is (the range of such a quantity is
  empty) and sets the total to the float sum of the old total and the float product
  of the unit price and the quantity (the quantity itself down to \<open>-2\<^sup>5\<^sup>3\<close>, its
  nearest float below).  From magnitude \<open>float_int_limit\<close> on, the call raises
  \<^verbatim>\<open>OverflowError\<close>.
\<close>

theorem add_item_nonpositive_quantity:
  assumes "current_orders self order_id = Some ord"
    and "price_lookup (py_lower item_name) = Some item_price"
    and "quantity \<le> 0"
  shows "(- float_int_limit < quantity \<longrightarrow>
          (\<exists>r. float_of_int quantity = Inr (Finite r)
             \<and> (- (2 ^ 53) < quantity \<longrightarrow> r = of_int quantity)
             \<and> add_item_to_order self order_id item_name quantity =
                 Inr (''Added '' @ str_int quantity @ ''x '' @ item_name @
                        '' ($'' @ float_repr item_price @ '' each) to order '' @
                        order_id @ ''. Current order total: $'' @
                        format_2f (fadd (total ord) (fmul item_price (Finite r))),
                      self\<lparr>current_orders := (current_orders self)
                        (order_id \<mapsto> ord\<lparr>total := fadd (total ord) (fmul item_price (Finite r))\<rparr>)\<rparr>)))
       \<and> (quantity \<le> - float_int_limit \<longrightarrow>
            add_item_to_order self order_id item_name quantity = Inl OverflowError)"
proof (intro conjI impI)
  assume "- float_int_limit < quantity"
  with assms(3) have "\<bar>quantity\<bar> < float_int_limit" by simp
  from fmul_int_result [OF this, of item_price] obtain r
    where r: "float_of_int quantity = Inr (Finite r)"
      and m: "fmul_int item_price quantity = Inr (fmul item_price (Finite r))"
    by blast
  have e: "- (2 ^ 53) < quantity \<longrightarrow> r = of_int quantity"
  proof
    assume "- (2 ^ 53) < quantity"
    with assms(3) have "\<bar>quantity\<bar> < 2 ^ 53" by simp
    from float_of_int_exact [OF this] r show "r = of_int quantity" by simp
  qed
  have "add_item_to_order self order_id item_name quantity =
          Inr (''Added '' @ str_int quantity @ ''x '' @ item_name @
                 '' ($'' @ float_repr item_price @ '' each) to order '' @
                 order_id @ ''. Current order total: $'' @
                 format_2f (fadd (total ord) (fmul item_price (Finite r))),
               self\<lparr>current_orders := (current_orders self)
                 (order_id \<mapsto> ord\<lparr>total := fadd (total ord) (fmul item_price (Finite r))\<rparr>)\<rparr>)"
    using assms m by (simp add: add_item_to_order_def Let_def)
  with r e show "\<exists>r. float_of_int quantity = Inr (Finite r)
             \<and> (- (2 ^ 53) < quantity \<longrightarrow> r = of_int quantity)
             \<and> add_item_to_order self order_id item_name quantity =
                 Inr (''Added '' @ str_int quantity @ ''x '' @ item_name @
                        '' ($'' @ float_repr item_price @ '' each) to order '' @
                        order_id @ ''. Current order total: $'' @
                        format_2f (fadd (total ord) (fmul item_price (Finite r))),
                      self\<lparr>current_orders := (current_orders self)
                        (order_id \<mapsto> ord\<lparr>total := fadd (total ord) (fmul item_price (Finite r))\<rparr>)\<rparr>)"
    by blast
next
  assume "quantity \<le> - float_int_limit"
  then have "float_int_limit \<le> \<bar>quantity\<bar>" by simp
  with assms show "add_item_to_order self order_id item_name quantity = Inl OverflowError"
    by (simp add: add_item_to_order_raises_iff)
qed

lemma price_lookup_Soda: "price_lookup (py_lower ''Soda'') = Some (float_literal (199 / 100))"
  by (simp add: price_lookup_def price_table_def py_lower_def char_lower_def char_of_eq_iff)

theorem add_item_huge_negative_quantity_raises:
  "add_item_to_order (snd (create_order init ''Alice'')) ''ORD-1'' ''Soda'' (- (2 ^ 1024)) =
     Inl OverflowError"
  by (simp add: add_item_to_order_raises_iff first_order price_lookup_Soda float_int_limit_def)

lemma price_lookup_Garlic_Bread:
  "price_lookup (py_lower ''Garlic Bread'') = Some (float_literal (499 / 100))"
  by (simp add: price_lookup_def price_table_def py_lower_def char_lower_def char_of_eq_iff)

lemma float_repr_garlic_bread: "float_repr (float_literal (499 / 100)) = ''4.99''"
  by (simp add: float_repr_def reads_back_def float_eval text_eval
        upt_rec [of _ 17] upt_rec [of _ "numeral _"])

lemma garlic_bread_minus_two:
  "format_2f (fadd (Finite 0) (fmul (float_literal (499 / 100)) (Finite (- 2)))) = ''-9.98''"
  by (simp add: fop_eval float_eval format_2f_def text_eval)

lemma str_int_minus_two: "str_int (- 2) = ''-2''"
  by (simp add: str_int_def text_eval)

theorem add_item_nonpositive_quantity_witness:
  "current_orders (snd (create_order init ''Alice'')) ''ORD-1'' =
     Some \<lparr>customer_name = ''Alice'', items = [], total = Finite 0\<rparr>
   \<and> price_lookup (py_lower ''Garlic Bread'') = Some (float_literal (499 / 100))
   \<and> (- 2 :: int) \<le> 0 \<and> - float_int_limit < - 2
   \<and> (\<exists>self'. add_item_to_order (snd (create_order init ''Alice'')) ''ORD-1'' ''Garlic Bread'' (- 2) =
         Inr (''Added -2x Garlic Bread ($4.99 each) to order ORD-1. Current order total: $-9.98'',
              self')
       \<and> current_orders self' ''ORD-1'' =
           Some \<lparr>customer_name = ''Alice'', items = [],
                 total = fadd (Finite 0) (fmul (float_literal (499 / 100)) (Finite (- 2)))\<rparr>)"
proof -
  have 1: "current_orders (snd (create_order init ''Alice'')) ''ORD-1'' =
     Some \<lparr>customer_name = ''Alice'', items = [], total = Finite 0\<rparr>"
    by (simp add: first_order)
  have 3: "(- 2 :: int) \<le> 0" by simp
  have 4: "- float_int_limit < - 2" by (simp add: float_int_limit_def)
  from add_item_nonpositive_quantity [OF 1 price_lookup_Garlic_Bread 3] 4
  obtain r where r: "- (2 ^ 53) < (- 2 :: int) \<longrightarrow> r = of_int (- 2)"
    and a: "add_item_to_order (snd (create_order init ''Alice'')) ''ORD-1'' ''Garlic Bread'' (- 2) =
                 Inr (''Added '' @ str_int (- 2) @ ''x '' @ ''Garlic Bread'' @
                        '' ($'' @ float_repr (float_literal (499 / 100)) @ '' each) to order '' @
                        ''ORD-1'' @ ''. Current order total: $'' @
                        format_2f (fadd (total \<lparr>customer_name = ''Alice'', items = [], total = Finite 0\<rparr>)
                          (fmul (float_literal (499 / 100)) (Finite r))),
                      (snd (create_order init ''Alice''))\<lparr>current_orders :=
                        (current_orders (snd (create_order init ''Alice'')))
                        (''ORD-1'' \<mapsto> \<lparr>customer_name = ''Alice'', items = [], total = Finite 0\<rparr>
                           \<lparr>total := fadd (total \<lparr>customer_name = ''Alice'', items = [], total = Finite 0\<rparr>)
                              (fmul (float_literal (499 / 100)) (Finite r))\<rparr>)\<rparr>)"
    by blast
  from r have r2: "r = - 2" by simp
  show ?thesis
    using 1 3 4 a
    by (simp add: r2 price_lookup_Garlic_Bread str_int_minus_two float_repr_garlic_bread
          garlic_bread_minus_two)
qed

section \<open>Order ids\<close>

text \<open>
  Claim C3.  In any sequence of calls on a new plugin object, whatever the other
  calls in between, the ids that the \<^verbatim>\<open>create_order\<close> calls assign are \<^verbatim>\<open>ORD-1\<close>,
  \<^verbatim>\<open>ORD-2\<close>, ... in call order: the prefix \<^verbatim>\<open>ORD-\<close> followed by the incremented
  counter, which counts the \<^verbatim>\<open>create_order\<close> calls so far.  The ids are pairwise
  distinct, they are exactly the keys of the store, and the id that the next
  \<^verbatim>\<open>create_order\<close> would assign is not a key yet, so no id is reused.  The message of
  \<^verbatim>\<open>create_order\<close> carries the id under which the new entry is stored.
\<close>

theorem created_ids_distinct_increasing:
  "created_ids init cs =
     map (\<lambda>n. ''ORD-'' @ str_nat n) [1 ..< Suc (length (filter is_create cs))]
   \<and> distinct (created_ids init cs)
   \<and> order_counter (run init cs) = length (filter is_create cs)
   \<and> dom (current_orders (run init cs)) = set (created_ids init cs)
   \<and> new_order_id (run init cs) \<notin> dom (current_orders (run init cs))
   \<and> fst (create_order self name) =
       ''Order created for '' @ name @ '' with order ID: '' @ new_order_id self @
         ''. You can now add items to this order.''
   \<and> current_orders (snd (create_order self name)) (new_order_id self) =
       Some \<lparr>customer_name = name, items = [], total = Finite 0\<rparr>"
proof -
  let ?k = "length (filter is_create cs)"
  let ?f = "\<lambda>n. ''ORD-'' @ str_nat n"
  from created_ids_from [of init cs]
  have ids: "created_ids init cs = map ?f [1 ..< Suc ?k]"
    and cnt: "order_counter (run init cs) = ?k"
    and dm: "dom (current_orders (run init cs)) = set (created_ids init cs)"
    by (simp_all add: init_def)
  have inj: "inj_on ?f A" for A
    by (rule inj_onI) (simp add: str_nat_inj)
  have dist: "distinct (created_ids init cs)"
    unfolding ids by (simp only: distinct_map distinct_upt inj)
  have fresh: "new_order_id (run init cs) \<notin> dom (current_orders (run init cs))"
  proof
    assume "new_order_id (run init cs) \<in> dom (current_orders (run init cs))"
    then have "?f (Suc ?k) \<in> ?f ` set [1 ..< Suc ?k]"
      unfolding dm ids by (simp add: new_order_id_def cnt)
    then obtain n where "n \<in> set [1 ..< Suc ?k]" and "?f (Suc ?k) = ?f n" by blast
    then have "n < Suc ?k" and "Suc ?k = n" by (auto dest: str_nat_inj)
    then show False by simp
  qed
  show ?thesis
    using ids dist cnt dm fresh by (simp add: create_order_new_id)
qed

theorem created_ids_distinct_increasing_witness:
  "created_ids init
     [CreateOrder ''Alice'', AddItem ''ORD-1'' ''Soda'' 1, CreateOrder ''Bob'',
      CompleteOrder ''ORD-1'', CreateOrder []] = [''ORD-1'', ''ORD-2'', ''ORD-3'']
   \<and> distinct [''ORD-1'', ''ORD-2'', ''ORD-3'']
   \<and> order_counter (run init
        [CreateOrder ''Alice'', AddItem ''ORD-1'' ''Soda'' 1, CreateOrder ''Bob'',
         CompleteOrder ''ORD-1'', CreateOrder []]) = 3"
  using created_ids_distinct_increasing
    [of "[CreateOrder ''Alice'', AddItem ''ORD-1'' ''Soda'' 1, CreateOrder ''Bob'',
          CompleteOrder ''ORD-1'', CreateOrder []]"]
  by (simp add: text_eval upt_conv_Cons del: upt_Suc)

section \<open>Price lookup and item summary\<close>

text \<open>
  Claim C4.  For an existing order, \<^verbatim>\<open>add_item_to_order\<close> looks the lowercased item
  name up in the price table, which has eleven keys, all of them lowercase: when the
  lowercased name is a key (and the quantity converts to a float), the call succeeds,
  charges the price stored under the lowercased name, and appends the name as it
  was given.  \<^verbatim>\<open>get_order_status\<close> groups the flat item list by the stored names:
  the summary lists the distinct names in the order of their first occurrence, each
  with the number of its occurrences.
\<close>

theorem lookup_and_summary:
  assumes "current_orders self order_id = Some ord"
    and "price_lookup (py_lower item_name) = Some item_price"
    and "\<bar>quantity\<bar> < float_int_limit"
  shows "(\<exists>r msg.
            float_of_int quantity = Inr (Finite r)
          \<and> add_item_to_order self order_id item_name quantity =
              Inr (msg, self\<lparr>current_orders := (current_orders self)
                 (order_id \<mapsto> ord\<lparr>items := items ord @ replicate (nat quantity) item_name,
                                   total := fadd (total ord) (fmul item_price (Finite r))\<rparr>)\<rparr>))
       \<and> card (dom price_lookup) = 11
       \<and> (\<forall>k \<in> dom price_lookup. py_lower k = k)
       \<and> summarise [] (items ord) =
           map (\<lambda>x. (x, count_list (items ord) x)) (rev (remdups (rev (items ord))))
       \<and> get_order_status self order_id =
           Inr (newline @ ''        Order ID: '' @ order_id @
                newline @ ''        Customer: '' @ customer_name ord @
                newline @ ''        Items: '' @
                  join '', '' (map (\<lambda>x. str_nat (count_list (items ord) x) @ ''x '' @ x)
                                 (rev (remdups (rev (items ord))))) @
                newline @ ''        Total: $'' @ format_2f (total ord) @
                newline @ ''        '',
                self)"
proof -
  from fmul_int_result [OF assms(3), of item_price] obtain r
    where r: "float_of_int quantity = Inr (Finite r)" by blast
  from add_item_to_order_success [OF assms(1,2) r] r
  have a: "\<exists>r msg.
            float_of_int quantity = Inr (Finite r)
          \<and> add_item_to_order self order_id item_name quantity =
              Inr (msg, self\<lparr>current_orders := (current_orders self)
                 (order_id \<mapsto> ord\<lparr>items := items ord @ replicate (nat quantity) item_name,
                                   total := fadd (total ord) (fmul item_price (Finite r))\<rparr>)\<rparr>)"
    by blast
  have g: "get_order_status self order_id =
           Inr (newline @ ''        Order ID: '' @ order_id @
                newline @ ''        Customer: '' @ customer_name ord @
                newline @ ''        Items: '' @
                  join '', '' (map (\<lambda>x. str_nat (count_list (items ord) x) @ ''x '' @ x)
                                 (rev (remdups (rev (items ord))))) @
                newline @ ''        Total: $'' @ format_2f (total ord) @
                newline @ ''        '',
                self)"
    using assms(1) by (simp add: get_order_status_def items_list_first_seen)
  have k: "\<forall>k \<in> dom price_lookup. py_lower k = k"
    by (simp add: py_lower_keys)
  show ?thesis
    by (intro conjI a card_dom_price_lookup k summarise_first_seen g)
qed

lemma price_lookup_PePpErOnI:
  "price_lookup (py_lower ''PePpErOnI'') = Some (float_literal (1299 / 100))"
  by (simp add: price_lookup_def price_table_def py_lower_def char_lower_def char_of_eq_iff)

theorem lookup_and_summary_witness:
  "current_orders
     \<lparr>current_orders = [''ORD-1'' \<mapsto>
        \<lparr>customer_name = ''Alice'', items = [''Soda'', ''soda'', ''Soda''], total = Finite 0\<rparr>],
      order_counter = 1\<rparr> ''ORD-1'' =
     Some \<lparr>customer_name = ''Alice'', items = [''Soda'', ''soda'', ''Soda''], total = Finite 0\<rparr>
   \<and> price_lookup (py_lower ''PePpErOnI'') = Some (float_literal (1299 / 100))
   \<and> \<bar>2\<bar> < float_int_limit
   \<and> (\<exists>msg. add_item_to_order
         \<lparr>current_orders = [''ORD-1'' \<mapsto>
            \<lparr>customer_name = ''Alice'', items = [''Soda'', ''soda'', ''Soda''], total = Finite 0\<rparr>],
          order_counter = 1\<rparr> ''ORD-1'' ''PePpErOnI'' 2 =
         Inr (msg,
           \<lparr>current_orders = [''ORD-1'' \<mapsto>
              \<lparr>customer_name = ''Alice'',
               items = [''Soda'', ''soda'', ''Soda'', ''PePpErOnI'', ''PePpErOnI''],
               total = fadd (Finite 0) (fmul (float_literal (1299 / 100)) (Finite 2))\<rparr>],
            order_counter = 1\<rparr>))
   \<and> summarise [] [''Soda'', ''soda'', ''Soda''] = [(''Soda'', 2), (''soda'', 1)]
   \<and> get_order_status
         \<lparr>current_orders = [''ORD-1'' \<mapsto>
            \<lparr>customer_name = ''Alice'', items = [''Soda'', ''soda'', ''Soda''], total = Finite 0\<rparr>],
          order_counter = 1\<rparr> ''ORD-1'' =
       Inr (newline @ ''        Order ID: ORD-1'' @
            newline @ ''        Customer: Alice'' @
            newline @ ''        Items: 2x Soda, 1x soda'' @
            newline @ ''        Total: $0.00'' @
            newline @ ''        '',
            \<lparr>current_orders = [''ORD-1'' \<mapsto>
               \<lparr>customer_name = ''Alice'', items = [''Soda'', ''soda'', ''Soda''], total = Finite 0\<rparr>],
             order_counter = 1\<rparr>)"
proof -
  let ?ord = "\<lparr>customer_name = ''Alice'', items = [''Soda'', ''soda'', ''Soda''], total = Finite 0\<rparr>"
  let ?self = "\<lparr>current_orders = [''ORD-1'' \<mapsto> ?ord], order_counter = 1\<rparr>"
  have 1: "current_orders ?self ''ORD-1'' = Some ?ord" by simp
  have 2: "price_lookup (py_lower ''PePpErOnI'') = Some (float_literal (1299 / 100))"
    by (rule price_lookup_PePpErOnI)
  have 3: "\<bar>2\<bar> < float_int_limit" by (simp add: float_int_limit_def)
  have 4: "float_of_int 2 = Inr (Finite 2)"
    using float_of_int_exact [of 2] by simp
  have 5: "replicate 2 ''PePpErOnI'' = [''PePpErOnI'', ''PePpErOnI'']"
    by (simp add: numeral_2_eq_2)
  from lookup_and_summary [OF 1 2 3] 1 2 3 4 show ?thesis
    by (simp add: text_eval format_2f_zero 5)
qed

section \<open>Adding the same item twice\<close>

text \<open>
  Claim C8.  On an order that is still empty, two calls of \<^verbatim>\<open>add_item_to_order\<close> with
  the same item name and quantity 1 both succeed and accumulate: the item list holds
  the name twice, which the summary renders as \<^verbatim>\<open>2x\<close> followed by the name, and the
  total is the unit price added twice to \<^verbatim>\<open>0.0\<close>.  For \<^verbatim>\<open>Soda\<close>,
  \<^verbatim>\<open>get_order_status\<close> then shows the items \<^verbatim>\<open>2x Soda\<close> and the total \<^verbatim>\<open>3.98\<close>.
\<close>

theorem add_same_item_twice:
  assumes "current_orders self order_id = Some ord"
    and "items ord = []" and "total ord = Finite 0"
  shows "(price_lookup (py_lower item_name) = Some p \<longrightarrow>
          (\<exists>m1 s1 m2 s2.
              add_item_to_order self order_id item_name 1 = Inr (m1, s1)
            \<and> add_item_to_order s1 order_id item_name 1 = Inr (m2, s2)
            \<and> current_orders s2 order_id =
                Some (ord\<lparr>items := [item_name, item_name],
                          total := fadd (fadd (Finite 0) p) p\<rparr>)
            \<and> items_list [item_name, item_name] = [''2x '' @ item_name]))
       \<and> (\<exists>m1 s1 m2 s2.
              add_item_to_order self order_id ''Soda'' 1 = Inr (m1, s1)
            \<and> add_item_to_order s1 order_id ''Soda'' 1 = Inr (m2, s2)
            \<and> get_order_status s2 order_id =
                Inr (newline @ ''        Order ID: '' @ order_id @
                     newline @ ''        Customer: '' @ customer_name ord @
                     newline @ ''        Items: 2x Soda'' @
                     newline @ ''        Total: $3.98'' @
                     newline @ ''        '',
                     s2))"
proof (intro conjI impI)
  assume "price_lookup (py_lower item_name) = Some p"
  from add_item_twice [OF assms this] show "\<exists>m1 s1 m2 s2.
              add_item_to_order self order_id item_name 1 = Inr (m1, s1)
            \<and> add_item_to_order s1 order_id item_name 1 = Inr (m2, s2)
            \<and> current_orders s2 order_id =
                Some (ord\<lparr>items := [item_name, item_name],
                          total := fadd (fadd (Finite 0) p) p\<rparr>)
            \<and> items_list [item_name, item_name] = [''2x '' @ item_name]"
    by (simp only: items_list_twice) blast
next
  from add_item_twice [OF assms price_lookup_Soda] obtain m1 s1 m2 s2
    where a1: "add_item_to_order self order_id ''Soda'' 1 = Inr (m1, s1)"
      and a2: "add_item_to_order s1 order_id ''Soda'' 1 = Inr (m2, s2)"
      and c: "current_orders s2 order_id =
                Some (ord\<lparr>items := [''Soda'', ''Soda''],
                  total := fadd (fadd (Finite 0) (float_literal (199 / 100)))
                             (float_literal (199 / 100))\<rparr>)"
    by blast
  have "get_order_status s2 order_id =
                Inr (newline @ ''        Order ID: '' @ order_id @
                     newline @ ''        Customer: '' @ customer_name ord @
                     newline @ ''        Items: 2x Soda'' @
                     newline @ ''        Total: $3.98'' @
                     newline @ ''        '',
                     s2)"
    using c by (simp add: get_order_status_def items_list_twice soda_twice)
  with a1 a2 show "\<exists>m1 s1 m2 s2.
              add_item_to_order self order_id ''Soda'' 1 = Inr (m1, s1)
            \<and> add_item_to_order s1 order_id ''Soda'' 1 = Inr (m2, s2)
            \<and> get_order_status s2 order_id =
                Inr (newline @ ''        Order ID: '' @ order_id @
                     newline @ ''        Customer: '' @ customer_name ord @
                     newline @ ''        Items: 2x Soda'' @
                     newline @ ''        Total: $3.98'' @
                     newline @ ''        '',
                     s2)"
    by blast
qed

theorem add_same_item_twice_witness:
  "current_orders (snd (create_order init ''Alice'')) ''ORD-1'' =
     Some \<lparr>customer_name = ''Alice'', items = [], total = Finite 0\<rparr>
   \<and> (\<exists>m1 s1 m2 s2.
          add_item_to_order (snd (create_order init ''Alice'')) ''ORD-1'' ''Soda'' 1 = Inr (m1, s1)
        \<and> add_item_to_order s1 ''ORD-1'' ''Soda'' 1 = Inr (m2, s2)
        \<and> get_order_status s2 ''ORD-1'' =
            Inr (newline @ ''        Order ID: ORD-1'' @
                 newline @ ''        Customer: Alice'' @
                 newline @ ''        Items: 2x Soda'' @
                 newline @ ''        Total: $3.98'' @
                 newline @ ''        '',
                 s2))"
proof -
  let ?ord = "\<lparr>customer_name = ''Alice'', items = [], total = Finite 0\<rparr>"
  have 1: "current_orders (snd (create_order init ''Alice'')) ''ORD-1'' = Some ?ord"
    by (simp add: first_order)
  have 2: "items ?ord = []" by simp
  have 3: "total ?ord = Finite 0" by simp
  from add_same_item_twice [OF 1 2 3] 1 show ?thesis by simp
qed

section \<open>Total and item list\<close>

theorem total_accumulates_charges:
  assumes "current_orders (run init cs) order_id = Some ord"
  shows "((\<forall>oid n q. AddItem oid n q \<in> set cs \<longrightarrow> 0 \<le> q) \<longrightarrow> accumulated ord)
       \<and> ((\<forall>oid n q. AddItem oid n q \<in> set cs \<longrightarrow> q = 1) \<longrightarrow> unit_sum ord)"
proof (intro conjI impI)
  assume "\<forall>oid n q. AddItem oid n q \<in> set cs \<longrightarrow> 0 \<le> q"
  with run_accumulated [of init cs] assms show "accumulated ord"
    by (simp add: init_def)
next
  assume "\<forall>oid n q. AddItem oid n q \<in> set cs \<longrightarrow> q = 1"
  with run_unit_sum [of init cs] assms show "unit_sum ord"
    by (simp add: init_def)
qed

end
